theory Spec2Isabelle
  imports Complex_Main "HOL-Library.Word"
begin

section \<open>The session bus as the helper sees it\<close>

text \<open>
  \<^verbatim>\<open>ndfr-media-helper.c\<close> talks to MPRIS media players over the D-Bus session bus through
  GLib's GDBus. The bus is the environment of every function of the program; it is
  modelled as a value the functions read, and every round trip to the bus a function makes
  is written to a log the function returns, in the order the source makes them.

  A \<^verbatim>\<open>GVariant\<close> holding a property value is a tagged union. The source inspects the tag
  of the position, of the track length and of the artist list, so these alternatives are
  kept apart; \<open>VOther\<close> stands for a value of any other D-Bus type.
\<close>

datatype gvariant =
    VBoolean bool
  | VInt64 "64 word"
  | VUInt64 "64 word"
  | VString string
  | VStrv "string list"
  | VOther

text \<open>
  The property cache of a \<^verbatim>\<open>GDBusProxy\<close> on the interface
  \<^verbatim>\<open>org.mpris.MediaPlayer2.Player\<close>: what
  \<^verbatim>\<open>g_dbus_proxy_get_cached_property\<close> answers for the four property names the
  source asks for, \<open>None\<close> for the \<^verbatim>\<open>NULL\<close> of an absent property.
  \<^verbatim>\<open>PlaybackStatus\<close> is a D-Bus string (the source applies
  \<^verbatim>\<open>g_variant_get_string\<close> and \<^verbatim>\<open>strcmp\<close> to it with no test), and
  \<^verbatim>\<open>Metadata\<close> is a dictionary \<^verbatim>\<open>a{sv}\<close>, kept as the list of its entries in
  the order the iterator yields them.
\<close>

record proxy =
  PlaybackStatus :: "string option"
  Position :: "gvariant option"
  Metadata :: "(string \<times> gvariant) list option"
  CanSeek :: "gvariant option"

text \<open>
  The bus: the answer of \<^verbatim>\<open>ListNames\<close> (\<open>None\<close> when the call sets its
  \<^verbatim>\<open>GError\<close>), the proxy \<^verbatim>\<open>g_dbus_proxy_new_for_bus_sync\<close> builds for a bus name
  (\<open>None\<close> when it sets its \<^verbatim>\<open>GError\<close>), and whether the method call
  \<^verbatim>\<open>Seek\<close> or \<^verbatim>\<open>PlayPause\<close> on a name ends in an error.
\<close>

record bus =
  ListNames :: "string list option"
  proxy_new :: "string \<Rightarrow> proxy option"
  Seek_error :: "string \<Rightarrow> 64 word \<Rightarrow> bool"
  PlayPause_error :: "string \<Rightarrow> bool"

text \<open>
  The round trips to the bus. Creating a proxy is one: the synchronous constructor
  resolves the name and loads the properties of the remote object. Reading a cached
  property is none.
\<close>

datatype bus_call =
    Call_ListNames
  | Call_proxy_new string
  | Call_Seek string "64 word"
  | Call_PlayPause string

section \<open>Library functions the source calls\<close>

definition g_str_has_prefix :: "string \<Rightarrow> string \<Rightarrow> bool" where
  "g_str_has_prefix str pre = (take (length pre) str = pre)"

definition mpris_prefix :: string where
  "mpris_prefix = ''org.mpris.MediaPlayer2.''"

section \<open>\<^verbatim>\<open>find_players\<close>\<close>

text \<open>
  The \<^verbatim>\<open>for\<close> loop of \<^verbatim>\<open>find_players\<close> over the names, with its two lists
  \<^verbatim>\<open>playing_players\<close> and \<^verbatim>\<open>paused_players\<close> and the log of calls as
  accumulators. \<^verbatim>\<open>g_list_append\<close> adds at the end.
\<close>

fun find_players_loop ::
  "bus \<Rightarrow> string list \<Rightarrow> string list \<times> string list \<times> bus_call list
     \<Rightarrow> string list \<times> string list \<times> bus_call list" where
  "find_players_loop b [] acc = acc"
| "find_players_loop b (name # names) (playing_players, paused_players, calls) =
     (if g_str_has_prefix name mpris_prefix then
        (case proxy_new b name of
           None \<Rightarrow>
             find_players_loop b names
               (playing_players, paused_players, calls @ [Call_proxy_new name])
         | Some p \<Rightarrow>
             (case PlaybackStatus p of
                Some status \<Rightarrow>
                  if status = ''Playing'' then
                    find_players_loop b names
                      (playing_players @ [name], paused_players, calls @ [Call_proxy_new name])
                  else if status = ''Paused'' then
                    find_players_loop b names
                      (playing_players, paused_players @ [name], calls @ [Call_proxy_new name])
                  else
                    find_players_loop b names
                      (playing_players, paused_players, calls @ [Call_proxy_new name])
              | None \<Rightarrow>
                  find_players_loop b names
                    (playing_players, paused_players, calls @ [Call_proxy_new name])))
      else find_players_loop b names (playing_players, paused_players, calls))"

text \<open>
  \<^verbatim>\<open>find_players\<close> returns the list of players (the empty list is the \<^verbatim>\<open>NULL\<close>
  \<^verbatim>\<open>GList\<close>) and the calls it made.
\<close>

definition find_players :: "bus \<Rightarrow> string list \<times> bus_call list" where
  "find_players b =
     (case ListNames b of
        None \<Rightarrow> ([], [Call_ListNames])
      | Some names \<Rightarrow>
          (case find_players_loop b names ([], [], [Call_ListNames]) of
             (playing_players, paused_players, calls) \<Rightarrow>
               (playing_players @ paused_players, calls)))"

text \<open>The status the cache of a name's proxy holds, if the proxy can be built at all.\<close>

definition status_of :: "bus \<Rightarrow> string \<Rightarrow> string option" where
  "status_of b name = (case proxy_new b name of None \<Rightarrow> None | Some p \<Rightarrow> PlaybackStatus p)"

definition has_status :: "bus \<Rightarrow> string \<Rightarrow> string \<Rightarrow> bool" where
  "has_status b s name = (g_str_has_prefix name mpris_prefix \<and> status_of b name = Some s)"

section \<open>Numbers read from the command line\<close>

text \<open>
  \<^verbatim>\<open>atoll\<close> and \<^verbatim>\<open>atof\<close> are the C library's. They skip white space, read an optional
  sign and the longest prefix that is a number, and return zero when there is none;
  neither reports an error. The program never calls \<^verbatim>\<open>setlocale\<close>, so the locale
  is \<^verbatim>\<open>"C"\<close>.
\<close>

definition isspace :: "char \<Rightarrow> bool" where
  "isspace c = (let n = (of_char c :: nat) in n = 32 \<or> (9 \<le> n \<and> n \<le> 13))"

definition isdigit :: "char \<Rightarrow> bool" where
  "isdigit c = (let n = (of_char c :: nat) in 48 \<le> n \<and> n \<le> 57)"

definition isxdigit :: "char \<Rightarrow> bool" where
  "isxdigit c =
     (let n = (of_char c :: nat)
      in (48 \<le> n \<and> n \<le> 57) \<or> (65 \<le> n \<and> n \<le> 70) \<or> (97 \<le> n \<and> n \<le> 102))"

definition tolower :: "char \<Rightarrow> char" where
  "tolower c =
     (let n = (of_char c :: nat) in if 65 \<le> n \<and> n \<le> 90 then char_of (n + 32) else c)"

text \<open>The value of a decimal or hexadecimal digit.\<close>

definition digit_val :: "char \<Rightarrow> int" where
  "digit_val c =
     (let n = (of_char c :: int)
      in if n \<le> 57 then n - 48 else if n \<le> 70 then n - 55 else n - 87)"

fun digits_val :: "int \<Rightarrow> int \<Rightarrow> string \<Rightarrow> int" where
  "digits_val base acc [] = acc"
| "digits_val base acc (c # cs) = digits_val base (acc * base + digit_val c) cs"

text \<open>The optional sign: whether it is a minus, and what follows it.\<close>

definition read_sign :: "string \<Rightarrow> bool \<times> string" where
  "read_sign s =
     (case s of
        [] \<Rightarrow> (False, s)
      | c # r \<Rightarrow> if c = CHR ''-'' then (True, r) else if c = CHR ''+'' then (False, r)
                 else (False, s))"

text \<open>
  \<^verbatim>\<open>strtoll\<close> in base 10: \<open>None\<close> when no digit follows the white space and the sign
  (no conversion), else the value, which glibc clamps to the range of
  \<^verbatim>\<open>long long\<close>. \<^verbatim>\<open>atoll\<close> is \<^verbatim>\<open>strtoll(nptr, NULL, 10)\<close>.
\<close>

definition strtoll :: "string \<Rightarrow> int option" where
  "strtoll nptr =
     (case read_sign (dropWhile isspace nptr) of
        (neg, s) \<Rightarrow>
          (let ds = takeWhile isdigit s; v = digits_val 10 0 ds
           in if ds = [] then None
              else if neg then Some (max (- v) (- (2 ^ 63)))
              else Some (min v (2 ^ 63 - 1))))"

definition atoll :: "string \<Rightarrow> 64 word" where
  "atoll nptr = (case strtoll nptr of None \<Rightarrow> 0 | Some v \<Rightarrow> word_of_int v)"

section \<open>Double precision arithmetic\<close>

text \<open>
  A \<^verbatim>\<open>double\<close> is an IEEE 754 binary64 number: a sign bit and a magnitude, or an
  infinity, or a NaN. The magnitude of a finite one is a multiple of \<open>2 ^ e\<close> below
  \<open>2 ^ 53 * 2 ^ e\<close>, for some exponent \<open>e\<close> from \<open>-1074\<close> to \<open>971\<close>.
  The sign bit is \<open>True\<close> for a negative number.
\<close>

datatype double = Finite bool rat | Infinite bool | NaN

text \<open>The number of binary digits of a positive integer.\<close>

function bitlen :: "int \<Rightarrow> int" where
  "bitlen n = (if n \<le> 0 then 0 else 1 + bitlen (n div 2))"
  by pat_completeness auto
termination
  by (relation "measure nat") auto

declare bitlen.simps [simp del]

text \<open>For \<open>x > 0\<close>, the \<open>e\<close> with \<open>2 ^ e \<le> x < 2 ^ (e + 1)\<close>.\<close>

definition ilog2 :: "rat \<Rightarrow> int" where
  "ilog2 x =
     (case quotient_of x of
        (a, b) \<Rightarrow>
          (let d = bitlen a - bitlen b
           in if 2 powi d \<le> x then d else d - 1))"

text \<open>The nearest integer, the even one of two that are equally near.\<close>

definition round_ties_even :: "rat \<Rightarrow> int" where
  "round_ties_even x =
     (let f = \<lfloor>x\<rfloor>; d = x - of_int f
      in if d < 1 / 2 then f else if 1 / 2 < d then f + 1 else if even f then f else f + 1)"

text \<open>
  Rounding a magnitude to the nearest \<^verbatim>\<open>double\<close>, the default rounding mode: to 53
  significant bits, or to a multiple of \<open>2 ^ (-1074)\<close> in the subnormal range;
  what rounds to \<open>2 ^ 1024\<close> or more overflows to an infinity.
\<close>

definition to_double :: "bool \<Rightarrow> rat \<Rightarrow> double" where
  "to_double sign m =
     (if m = 0 then Finite sign 0
      else
        (let e = max (ilog2 m - 52) (- 1074);
             r = of_int (round_ties_even (m / 2 powi e)) * 2 powi e
         in if of_int (2 ^ 1024) \<le> r then Infinite sign else Finite sign r))"

text \<open>The operators of C on \<^verbatim>\<open>double\<close> that the source uses.\<close>

fun double_div :: "double \<Rightarrow> double \<Rightarrow> double" where
  "double_div NaN y = NaN"
| "double_div x NaN = NaN"
| "double_div (Infinite s) (Infinite t) = NaN"
| "double_div (Infinite s) (Finite t n) = Infinite (s \<noteq> t)"
| "double_div (Finite s m) (Infinite t) = Finite (s \<noteq> t) 0"
| "double_div (Finite s m) (Finite t n) =
     (if n = 0 then (if m = 0 then NaN else Infinite (s \<noteq> t))
      else to_double (s \<noteq> t) (m / n))"

fun double_mul :: "double \<Rightarrow> double \<Rightarrow> double" where
  "double_mul NaN y = NaN"
| "double_mul x NaN = NaN"
| "double_mul (Infinite s) (Infinite t) = Infinite (s \<noteq> t)"
| "double_mul (Infinite s) (Finite t n) = (if n = 0 then NaN else Infinite (s \<noteq> t))"
| "double_mul (Finite s m) (Infinite t) = (if m = 0 then NaN else Infinite (s \<noteq> t))"
| "double_mul (Finite s m) (Finite t n) = to_double (s \<noteq> t) (m * n)"

text \<open>\<open>x < y\<close> on \<^verbatim>\<open>double\<close>: false when either is a NaN; the two zeros are equal.\<close>

fun double_less :: "double \<Rightarrow> double \<Rightarrow> bool" where
  "double_less NaN y = False"
| "double_less x NaN = False"
| "double_less (Infinite s) (Infinite t) = (s \<and> \<not> t)"
| "double_less (Infinite s) (Finite t n) = s"
| "double_less (Finite s m) (Infinite t) = (\<not> t)"
| "double_less (Finite s m) (Finite t n) = ((if s then - m else m) < (if t then - n else n))"

text \<open>The conversion \<^verbatim>\<open>(double)x\<close> of a \<^verbatim>\<open>gint64\<close>.\<close>

definition int64_to_double :: "64 word \<Rightarrow> double" where
  "int64_to_double x = to_double (sint x < 0) (of_int \<bar>sint x\<bar>)"

text \<open>
  The conversion \<^verbatim>\<open>(gint64)d\<close> drops the fraction. C leaves it undefined for a NaN, an
  infinity and a value outside the range of \<^verbatim>\<open>gint64\<close>: \<open>None\<close>.
\<close>

fun double_to_int64 :: "double \<Rightarrow> 64 word option" where
  "double_to_int64 (Finite s m) =
     (let v = (if s then - \<lfloor>m\<rfloor> else \<lfloor>m\<rfloor>)
      in if - (2 ^ 63) \<le> v \<and> v < 2 ^ 63 then Some (word_of_int v) else None)"
| "double_to_int64 (Infinite s) = None"
| "double_to_int64 NaN = None"

subsection \<open>\<^verbatim>\<open>strtod\<close>\<close>

text \<open>
  The digits before the radix character, the digits after it and the rest of the string;
  \<open>None\<close> when there is no digit on either side of the radix character.
\<close>

definition read_mantissa :: "(char \<Rightarrow> bool) \<Rightarrow> string \<Rightarrow> (string \<times> string \<times> string) option" where
  "read_mantissa isd s =
     (let ip = takeWhile isd s; r = dropWhile isd s
      in case r of
           [] \<Rightarrow> if ip = [] then None else Some (ip, [], r)
         | c # r' \<Rightarrow>
             if c = CHR ''.'' then
               (let fp = takeWhile isd r'
                in if ip = [] \<and> fp = [] then None else Some (ip, fp, dropWhile isd r'))
             else if ip = [] then None else Some (ip, [], r))"

text \<open>
  The exponent part: the marker (\<^verbatim>\<open>e\<close> or \<^verbatim>\<open>p\<close>, in either case), an optional
  sign and at least one decimal digit. Anything else is not part of the number, and the
  exponent is \<open>0\<close>.
\<close>

definition read_exponent :: "char \<Rightarrow> string \<Rightarrow> int" where
  "read_exponent marker s =
     (case s of
        [] \<Rightarrow> 0
      | c # r \<Rightarrow>
          if tolower c = marker then
            (case read_sign r of
               (neg, r') \<Rightarrow>
                 (let ds = takeWhile isdigit r'; v = digits_val 10 0 ds
                  in if ds = [] then 0 else if neg then - v else v))
          else 0)"

text \<open>
  \<^verbatim>\<open>strtod\<close>: \<open>None\<close> when no conversion is performed, else the number read, correctly
  rounded. The forms are \<^verbatim>\<open>inf\<close> and \<^verbatim>\<open>nan\<close> in any case, a hexadecimal number
  after \<^verbatim>\<open>0x\<close> with a binary exponent, and a decimal number with a decimal exponent.
\<close>

definition strtod :: "string \<Rightarrow> double option" where
  "strtod nptr =
     (case read_sign (dropWhile isspace nptr) of
        (neg, s) \<Rightarrow>
          if map tolower (take 3 s) = ''inf'' then Some (Infinite neg)
          else if map tolower (take 3 s) = ''nan'' then Some NaN
          else
            (case (if map tolower (take 2 s) = ''0x'' then read_mantissa isxdigit (drop 2 s)
                   else None) of
               Some (ip, fp, r) \<Rightarrow>
                 Some (to_double neg
                   (of_int (digits_val 16 0 (ip @ fp)) *
                    2 powi (read_exponent (CHR ''p'') r - 4 * int (length fp))))
             | None \<Rightarrow>
                 (case read_mantissa isdigit s of
                    Some (ip, fp, r) \<Rightarrow>
                      Some (to_double neg
                        (of_int (digits_val 10 0 (ip @ fp)) *
                         10 powi (read_exponent (CHR ''e'') r - int (length fp))))
                  | None \<Rightarrow> None)))"

definition atof :: "string \<Rightarrow> double" where
  "atof nptr = (case strtod nptr of None \<Rightarrow> Finite False 0 | Some d \<Rightarrow> d)"

section \<open>\<^verbatim>\<open>get_players_json\<close>\<close>

text \<open>
  The GVariant readers the source applies with no test of the type. GLib guards each with
  \<^verbatim>\<open>g_return_val_if_fail\<close>: on a value of another type they return \<^verbatim>\<open>0\<close>,
  \<^verbatim>\<open>FALSE\<close> and \<^verbatim>\<open>NULL\<close>.
\<close>

fun g_variant_get_int64 :: "gvariant \<Rightarrow> 64 word" where
  "g_variant_get_int64 (VInt64 x) = x"
| "g_variant_get_int64 v = 0"

fun g_variant_get_boolean :: "gvariant \<Rightarrow> bool" where
  "g_variant_get_boolean (VBoolean x) = x"
| "g_variant_get_boolean v = False"

fun g_variant_get_string :: "gvariant \<Rightarrow> string option" where
  "g_variant_get_string (VString x) = Some x"
| "g_variant_get_string v = None"

text \<open>
  The variables of one round of the loop of \<^verbatim>\<open>get_players_json\<close>, which are the
  fields of the JSON object it prints for a player. \<^verbatim>\<open>title\<close> and \<^verbatim>\<open>artist\<close>
  are pointers that can be \<^verbatim>\<open>NULL\<close>; \<^verbatim>\<open>length\<close> is \<open>length_usec\<close> here.
\<close>

record player_state =
  status :: string
  position :: "64 word"
  length_usec :: "64 word"
  title :: "string option"
  artist :: "string option"
  icon_name :: string

text \<open>The \<^verbatim>\<open>while\<close> loop over the entries of \<^verbatim>\<open>Metadata\<close>.\<close>

fun metadata_loop :: "(string \<times> gvariant) list \<Rightarrow> player_state \<Rightarrow> player_state" where
  "metadata_loop [] r = r"
| "metadata_loop ((key, val) # entries) r =
     metadata_loop entries
       (if key = ''mpris:length'' then
          (case val of
             VInt64 x \<Rightarrow> r\<lparr>length_usec := x\<rparr>
           | VUInt64 x \<Rightarrow> r\<lparr>length_usec := x\<rparr>
           | _ \<Rightarrow> r)
        else if key = ''xesam:title'' then r\<lparr>title := g_variant_get_string val\<rparr>
        else if key = ''xesam:artist'' then
          (case val of
             VStrv artists \<Rightarrow> (case artists of [] \<Rightarrow> r | a # _ \<Rightarrow> r\<lparr>artist := Some a\<rparr>)
           | _ \<Rightarrow> r)
        else r)"

text \<open>
  Lines 97 to 150: the variables start at their defaults and each property that is present
  overwrites its own.
\<close>

definition read_player_state :: "string \<Rightarrow> proxy \<Rightarrow> player_state" where
  "read_player_state player_name player_proxy =
     (let r0 = \<lparr>status = [], position = 0, length_usec = 0, title = Some [],
                artist = None, icon_name = []\<rparr>;
          r1 = (case PlaybackStatus player_proxy of None \<Rightarrow> r0 | Some s \<Rightarrow> r0\<lparr>status := s\<rparr>);
          r2 = (case Position player_proxy of
                  Some (VInt64 x) \<Rightarrow> r1\<lparr>position := x\<rparr>
                | Some (VUInt64 x) \<Rightarrow> r1\<lparr>position := x\<rparr>
                | _ \<Rightarrow> r1);
          r3 = (case Metadata player_proxy of None \<Rightarrow> r2 | Some entries \<Rightarrow> metadata_loop entries r2)
      in if g_str_has_prefix player_name mpris_prefix
         then r3\<lparr>icon_name := drop (length mpris_prefix) player_name\<rparr>
         else r3)"

text \<open>
  \<^verbatim>\<open>%lld\<close> of a \<^verbatim>\<open>long long\<close>, and \<^verbatim>\<open>%s\<close>, which glibc prints as
  \<^verbatim>\<open>(null)\<close> for a \<^verbatim>\<open>NULL\<close> pointer.
\<close>

function decimal :: "int \<Rightarrow> string" where
  "decimal n = (if 10 \<le> n then decimal (n div 10) else []) @ [char_of (48 + n mod 10)]"
  by pat_completeness auto
termination
  by (relation "measure nat") auto

declare decimal.simps [simp del]

definition printf_lld :: "int \<Rightarrow> string" where
  "printf_lld v = (if 0 \<le> v then decimal v else CHR ''-'' # decimal (- v))"

definition printf_s :: "string option \<Rightarrow> string" where
  "printf_s p = (case p of None \<Rightarrow> ''(null)'' | Some s \<Rightarrow> s)"

text \<open>The \<^verbatim>\<open>g_string_append_printf\<close> of line 152.\<close>

definition player_json :: "string \<Rightarrow> player_state \<Rightarrow> string" where
  \<open>player_json player_name r =
     ''{"player_id":"'' @ player_name @
     ''","status":"'' @ status r @
     ''","position":'' @ printf_lld (sint (position r)) @
     '',"length":'' @ printf_lld (sint (length_usec r)) @
     '',"title":"'' @ printf_s (title r) @
     ''","artist":"'' @ (case artist r of None \<Rightarrow> [] | Some a \<Rightarrow> a) @
     ''","icon":"'' @ icon_name r @ ''"}''\<close>

text \<open>
  The loop over the players: a player whose proxy cannot be built is passed over
  (\<^verbatim>\<open>continue\<close>), and a comma follows an object when the list goes on
  (\<^verbatim>\<open>l->next\<close>).
\<close>

fun get_players_json_loop ::
  "bus \<Rightarrow> string list \<Rightarrow> string \<times> bus_call list \<Rightarrow> string \<times> bus_call list" where
  "get_players_json_loop b [] acc = acc"
| "get_players_json_loop b (player_name # l_next) (json_str, calls) =
     (case proxy_new b player_name of
        None \<Rightarrow> get_players_json_loop b l_next (json_str, calls @ [Call_proxy_new player_name])
      | Some player_proxy \<Rightarrow>
          get_players_json_loop b l_next
            (json_str @ player_json player_name (read_player_state player_name player_proxy) @
               (if l_next = [] then [] else '',''),
             calls @ [Call_proxy_new player_name]))"

definition get_players_json :: "bus \<Rightarrow> string \<times> bus_call list" where
  "get_players_json b =
     (case find_players b of
        (players, calls) \<Rightarrow>
          if players = [] then (''[]'', calls)
          else
            (case get_players_json_loop b players (''['', calls) of
               (json_str, calls') \<Rightarrow> (json_str @ '']'', calls')))"

section \<open>The commands\<close>

text \<open>
  A command handler returns its \<^verbatim>\<open>int\<close> result and the calls it made;
  \<^verbatim>\<open>handle_get\<close> also what it prints on the standard output.
\<close>

definition newline :: string where
  "newline = [CHR 0x0A]"

definition handle_get :: "bus \<Rightarrow> int \<times> string \<times> bus_call list" where
  "handle_get b = (case get_players_json b of (json_data, calls) \<Rightarrow> (0, json_data @ newline, calls))"

text \<open>
  \<^verbatim>\<open>handle_play_pause\<close> passes \<^verbatim>\<open>NULL\<close> for the \<^verbatim>\<open>GError\<close> of the call and drops
  the reply: whether \<^verbatim>\<open>PlayPause\<close> failed is never read.
\<close>

definition handle_play_pause :: "bus \<Rightarrow> string option \<Rightarrow> int \<times> bus_call list" where
  "handle_play_pause b player_id =
     (case player_id of
        None \<Rightarrow> (1, [])
      | Some pid \<Rightarrow> (0, [Call_PlayPause pid]))"

text \<open>The subtraction of two \<^verbatim>\<open>gint64\<close> is that of 64-bit words: it wraps around.\<close>

definition handle_set_position :: "bus \<Rightarrow> string option \<Rightarrow> string \<Rightarrow> int \<times> bus_call list" where
  "handle_set_position b player_id pos_str =
     (case player_id of
        None \<Rightarrow> (1, [])
      | Some pid \<Rightarrow>
          (case proxy_new b pid of
             None \<Rightarrow> (1, [Call_proxy_new pid])
           | Some p \<Rightarrow>
               (case CanSeek p of
                  None \<Rightarrow> (1, [Call_proxy_new pid])
                | Some can_seek_variant \<Rightarrow>
                    if g_variant_get_boolean can_seek_variant then
                      (case Position p of
                         None \<Rightarrow> (1, [Call_proxy_new pid])
                       | Some pos_variant \<Rightarrow>
                           (let current_pos = g_variant_get_int64 pos_variant;
                                offset = atoll pos_str - current_pos
                            in (if Seek_error b pid offset then 1 else 0,
                                [Call_proxy_new pid, Call_Seek pid offset])))
                    else (1, [Call_proxy_new pid]))))"

text \<open>
  \<^verbatim>\<open>g_variant_lookup_value\<close> with the expected type \<^verbatim>\<open>G_VARIANT_TYPE_INT64\<close>: the
  value of the first entry with the key, if it is a signed 64-bit integer.
\<close>

definition lookup_int64 :: "(string \<times> gvariant) list \<Rightarrow> string \<Rightarrow> 64 word option" where
  "lookup_int64 dict key =
     (case map_of dict key of Some (VInt64 x) \<Rightarrow> Some x | _ \<Rightarrow> None)"

text \<open>
  The arithmetic of lines 240 and 241, from the percentage, the track length and the
  current position to the offset; \<open>None\<close> where the conversion of the product to
  \<^verbatim>\<open>gint64\<close> is undefined.
\<close>

definition desired_pos :: "double \<Rightarrow> 64 word \<Rightarrow> 64 word option" where
  "desired_pos percentage track_length =
     double_to_int64
       (double_mul (double_div percentage (Finite False 100)) (int64_to_double track_length))"

text \<open>
  \<^verbatim>\<open>handle_set_position_percent\<close>. The result is \<open>None\<close> where the behaviour is
  undefined.
\<close>

definition handle_set_position_percent ::
  "bus \<Rightarrow> string option \<Rightarrow> string \<Rightarrow> (int \<times> bus_call list) option" where
  "handle_set_position_percent b player_id percent_str =
     (case player_id of
        None \<Rightarrow> Some (1, [])
      | Some pid \<Rightarrow>
          (case proxy_new b pid of
             None \<Rightarrow> Some (1, [Call_proxy_new pid])
           | Some p \<Rightarrow>
               (case CanSeek p of
                  None \<Rightarrow> Some (1, [Call_proxy_new pid])
                | Some can_seek_variant \<Rightarrow>
                    if g_variant_get_boolean can_seek_variant then
                      (let percentage = atof percent_str
                       in if double_less percentage (Finite False 0) \<or>
                             double_less (Finite False 100) percentage
                          then Some (1, [Call_proxy_new pid])
                          else
                            (case Metadata p of
                               None \<Rightarrow> Some (1, [Call_proxy_new pid])
                             | Some metadata \<Rightarrow>
                                 (case lookup_int64 metadata ''mpris:length'' of
                                    None \<Rightarrow> Some (1, [Call_proxy_new pid])
                                  | Some track_length \<Rightarrow>
                                      if sint track_length \<le> 0 then Some (1, [Call_proxy_new pid])
                                      else
                                        (case Position p of
                                           None \<Rightarrow> Some (1, [Call_proxy_new pid])
                                         | Some pos_variant \<Rightarrow>
                                             (let current_pos = g_variant_get_int64 pos_variant
                                              in case desired_pos percentage track_length of
                                                   None \<Rightarrow> None
                                                 | Some desired \<Rightarrow>
                                                     (let offset = desired - current_pos
                                                      in Some
                                                           (if Seek_error b pid offset then 1 else 0,
                                                            [Call_proxy_new pid,
                                                             Call_Seek pid offset])))))))
                    else Some (1, [Call_proxy_new pid]))))"

section \<open>The \<^verbatim>\<open>listen\<close> command\<close>

text \<open>
  \<^verbatim>\<open>high_frequency_poll\<close> keeps the last line it printed in the static variable
  \<^verbatim>\<open>previous_json\<close>, \<^verbatim>\<open>NULL\<close> at first. One call takes the variable and the bus as
  it is at that tick, and returns the variable, what it prints (\<open>None\<close> when it prints
  nothing) and the calls it made.
\<close>

definition high_frequency_poll ::
  "string option \<Rightarrow> bus \<Rightarrow> string option \<times> string option \<times> bus_call list" where
  "high_frequency_poll previous_json b =
     (case get_players_json b of
        (current_json, calls) \<Rightarrow>
          (case previous_json of
             None \<Rightarrow> (Some current_json, Some (current_json @ newline), calls)
           | Some previous \<Rightarrow>
               if previous = current_json then (previous_json, None, calls)
               else (Some current_json, Some (current_json @ newline), calls)))"

text \<open>
  \<^verbatim>\<open>handle_listen\<close> has the main loop call \<^verbatim>\<open>high_frequency_poll\<close> every 200 ms
  and never returns. Its run up to some tick, from the buses of the ticks so far: the
  variable after the last of them and the lines printed, one for each emission.
\<close>

fun listen_ticks :: "string option \<Rightarrow> bus list \<Rightarrow> string option \<times> string list" where
  "listen_ticks previous_json [] = (previous_json, [])"
| "listen_ticks previous_json (b # ticks) =
     (case high_frequency_poll previous_json b of
        (previous_json', out, calls) \<Rightarrow>
          (case listen_ticks previous_json' ticks of
             (final, outs) \<Rightarrow> (final, (case out of None \<Rightarrow> [] | Some line \<Rightarrow> [line]) @ outs)))"

definition handle_listen :: "bus list \<Rightarrow> string list" where
  "handle_listen ticks = snd (listen_ticks None ticks)"

section \<open>\<^verbatim>\<open>main\<close>\<close>

text \<open>
  How a run of the program ends: it returns an exit code, or it stays in the main loop of
  \<^verbatim>\<open>listen\<close>, or its behaviour is undefined.
\<close>

datatype outcome = Exit int | Runs_forever | Undefined

text \<open>
  \<^verbatim>\<open>main\<close> takes what \<^verbatim>\<open>g_bus_get_sync\<close> returns (\<open>None\<close> for \<^verbatim>\<open>NULL\<close>) and
  \<^verbatim>\<open>argv\<close>, whose length is \<^verbatim>\<open>argc\<close>. It returns how the run ends, the standard
  output and the calls made. The usage text goes to the standard error.
\<close>

definition seek_outcome ::
  "bus_call list \<Rightarrow> (int \<times> bus_call list) option \<Rightarrow> outcome \<times> string \<times> bus_call list" where
  "seek_outcome calls r =
     (case r of
        None \<Rightarrow> (Undefined, [], calls)
      | Some (result, calls') \<Rightarrow> (Exit result, [], calls @ calls'))"

definition main :: "bus option \<Rightarrow> string list \<Rightarrow> outcome \<times> string \<times> bus_call list" where
  "main connection argv =
     (if length argv < 2 then (Exit 1, [], [])
      else
        (case connection of
           None \<Rightarrow> (Exit 1, [], [])
         | Some b \<Rightarrow>
             (let command = argv ! 1
              in if command = ''get'' then
                   (case handle_get b of (result, out, calls) \<Rightarrow> (Exit result, out, calls))
                 else if command = ''listen'' then (Runs_forever, [], [])
                 else if command = ''play-pause'' then
                   (if length argv > 2 then
                      (case handle_play_pause b (Some (argv ! 2)) of
                         (result, calls) \<Rightarrow> (Exit result, [], calls))
                    else
                      (case find_players b of
                         (players, calls) \<Rightarrow>
                           (case players of
                              [] \<Rightarrow> (Exit 1, [], calls)
                            | player # _ \<Rightarrow>
                                (case handle_play_pause b (Some player) of
                                   (result, calls') \<Rightarrow> (Exit result, [], calls @ calls')))))
                 else if command = ''set-position'' then
                   (if length argv > 3 then
                      seek_outcome [] (Some (handle_set_position b (Some (argv ! 2)) (argv ! 3)))
                    else if length argv > 2 then
                      (case find_players b of
                         (players, calls) \<Rightarrow>
                           (case players of
                              [] \<Rightarrow> (Exit 1, [], calls)
                            | player # _ \<Rightarrow>
                                seek_outcome calls
                                  (Some (handle_set_position b (Some player) (argv ! 2)))))
                    else (Exit 1, [], []))
                 else if command = ''set-position-percent'' then
                   (if length argv > 3 then
                      seek_outcome [] (handle_set_position_percent b (Some (argv ! 2)) (argv ! 3))
                    else if length argv > 2 then
                      (case find_players b of
                         (players, calls) \<Rightarrow>
                           (case players of
                              [] \<Rightarrow> (Exit 1, [], calls)
                            | player # _ \<Rightarrow>
                                seek_outcome calls
                                  (handle_set_position_percent b (Some player) (argv ! 2))))
                    else (Exit 1, [], []))
                 else (Exit 1, [], []))))"

section \<open>The words of the specification\<close>

text \<open>
  The specification's data model names a playback status \<open>Playing | Paused | Stopped |
  Unknown\<close>, derived from the protocol's string: any unrecognised or absent value is
  \<open>Unknown\<close>. The program has no such type; it carries the string. This is the
  specification's reading of the string the program holds.
\<close>

datatype playback_status = Playing | Paused | Stopped | Unknown

definition spec_playback_status :: "string \<Rightarrow> playback_status" where
  "spec_playback_status s =
     (if s = ''Playing'' then Playing else if s = ''Paused'' then Paused
      else if s = ''Stopped'' then Stopped else Unknown)"

text \<open>
  The specification's target of a percentage seek, in exact arithmetic:
  \<open>(percentage / 100) * length\<close> rounded toward zero, for a percentage and a length
  that are not negative.
\<close>

definition spec_target :: "rat \<Rightarrow> int \<Rightarrow> int" where
  "spec_target percentage len = \<lfloor>percentage / 100 * of_int len\<rfloor>"

section \<open>Buses to run the program on\<close>

text \<open>
  A bus with the given players registered after the bus driver's own name, on which
  every method call succeeds.
\<close>

definition bus_of :: "(string \<times> proxy) list \<Rightarrow> bus" where
  "bus_of players =
     \<lparr>ListNames = Some (''org.freedesktop.DBus'' # map fst players),
      proxy_new = map_of players,
      Seek_error = (\<lambda>name offset. False),
      PlayPause_error = (\<lambda>name. False)\<rparr>"

definition proxy_with_status :: "string \<Rightarrow> proxy" where
  "proxy_with_status s =
     \<lparr>PlaybackStatus = Some s, Position = None, Metadata = None, CanSeek = None\<rparr>"

text \<open>Three players, paused, playing and playing, and a stopped one.\<close>

definition ranking_bus :: bus where
  "ranking_bus =
     bus_of
       [(''org.mpris.MediaPlayer2.P1'', proxy_with_status ''Paused''),
        (''org.mpris.MediaPlayer2.P2'', proxy_with_status ''Playing''),
        (''org.mpris.MediaPlayer2.P3'', proxy_with_status ''Playing''),
        (''org.mpris.MediaPlayer2.P4'', proxy_with_status ''Stopped'')]"

text \<open>A bus on which the name listing fails, and one with a single stopped player.\<close>

definition silent_bus :: bus where
  "silent_bus =
     \<lparr>ListNames = None, proxy_new = (\<lambda>name. None),
      Seek_error = (\<lambda>name offset. False), PlayPause_error = (\<lambda>name. False)\<rparr>"

definition stopped_bus :: bus where
  "stopped_bus = bus_of [(''org.mpris.MediaPlayer2.vlc'', proxy_with_status ''Stopped'')]"

text \<open>A proxy whose cache holds no property at all.\<close>

definition bare_proxy :: proxy where
  "bare_proxy = \<lparr>PlaybackStatus = None, Position = None, Metadata = None, CanSeek = None\<rparr>"

text \<open>
  A bus with a single playing player, and the same bus when every \<^verbatim>\<open>PlayPause\<close> call
  ends in an error.
\<close>

definition playing_bus :: bus where
  "playing_bus = bus_of [(''org.mpris.MediaPlayer2.vlc'', proxy_with_status ''Playing'')]"

definition toggle_fails_bus :: bus where
  "toggle_fails_bus = playing_bus\<lparr>PlayPause_error := (\<lambda>name. True)\<rparr>"

text \<open>
  A bus with one playing player that can seek, at the given position in a track of the
  given length, and one whose player says it cannot seek.
\<close>

definition seek_proxy :: "64 word \<Rightarrow> 64 word \<Rightarrow> proxy" where
  "seek_proxy current_pos track_length =
     \<lparr>PlaybackStatus = Some ''Playing'',
      Position = Some (VInt64 current_pos),
      Metadata = Some [(''xesam:title'', VString ''Song''), (''mpris:length'', VInt64 track_length)],
      CanSeek = Some (VBoolean True)\<rparr>"

definition seek_bus :: "64 word \<Rightarrow> 64 word \<Rightarrow> bus" where
  "seek_bus current_pos track_length =
     bus_of [(''org.mpris.MediaPlayer2.vlc'', seek_proxy current_pos track_length)]"

definition no_seek_bus :: bus where
  "no_seek_bus =
     bus_of [(''org.mpris.MediaPlayer2.vlc'',
              (seek_proxy 5000000 200000000)\<lparr>CanSeek := Some (VBoolean False)\<rparr>)]"

text \<open>
  The seeking player when its \<^verbatim>\<open>Position\<close> is encoded as an unsigned 64-bit
  integer, at 5,000,000 microseconds.
\<close>

definition uint64_position_bus :: bus where
  "uint64_position_bus =
     bus_of [(''org.mpris.MediaPlayer2.vlc'',
              (seek_proxy 0 200000000)\<lparr>Position := Some (VUInt64 5000000)\<rparr>)]"

section \<open>The ranking of \<^verbatim>\<open>find_players\<close>\<close>

lemma find_players_loop_lists:
  "find_players_loop b names (pl, pa, cs) = (pl', pa', cs') \<Longrightarrow>
     pl' = pl @ filter (has_status b ''Playing'') names \<and>
     pa' = pa @ filter (has_status b ''Paused'') names"
proof (induction names arbitrary: pl pa cs)
  case Nil
  then show ?case by simp
next
  case (Cons name names)
  show ?case
  proof (cases "g_str_has_prefix name mpris_prefix")
    case False
    with Cons.prems have "find_players_loop b names (pl, pa, cs) = (pl', pa', cs')"
      by simp
    from Cons.IH [OF this] False show ?thesis
      by (simp add: has_status_def)
  next
    case True
    show ?thesis
    proof (cases "status_of b name")
      case None
      with True Cons.prems
      have "find_players_loop b names (pl, pa, cs @ [Call_proxy_new name]) = (pl', pa', cs')"
        by (simp add: status_of_def split: option.splits)
      from Cons.IH [OF this] None show ?thesis
        by (simp add: has_status_def)
    next
      case (Some status)
      then obtain p where p: "proxy_new b name = Some p" "PlaybackStatus p = Some status"
        by (auto simp: status_of_def split: option.splits)
      consider (playing) "status = ''Playing''" | (paused) "status = ''Paused''"
        | (other) "status \<noteq> ''Playing''" "status \<noteq> ''Paused''"
        by blast
      then show ?thesis
      proof cases
        case playing
        with True p Cons.prems
        have "find_players_loop b names (pl @ [name], pa, cs @ [Call_proxy_new name])
                = (pl', pa', cs')"
          by simp
        from Cons.IH [OF this] True Some playing show ?thesis
          by (simp add: has_status_def)
      next
        case paused
        with True p Cons.prems
        have "find_players_loop b names (pl, pa @ [name], cs @ [Call_proxy_new name])
                = (pl', pa', cs')"
          by simp
        from Cons.IH [OF this] True Some paused show ?thesis
          by (simp add: has_status_def)
      next
        case other
        with True p Cons.prems
        have "find_players_loop b names (pl, pa, cs @ [Call_proxy_new name]) = (pl', pa', cs')"
          by simp
        from Cons.IH [OF this] True Some other show ?thesis
          by (simp add: has_status_def)
      qed
    qed
  qed
qed

lemma find_players_ranking:
  "ListNames b = Some names \<Longrightarrow>
     fst (find_players b) =
       filter (has_status b ''Playing'') names @ filter (has_status b ''Paused'') names"
proof -
  assume names: "ListNames b = Some names"
  obtain pl pa cs where loop: "find_players_loop b names ([], [], [Call_ListNames]) = (pl, pa, cs)"
    by (cases "find_players_loop b names ([], [], [Call_ListNames])") auto
  from find_players_loop_lists [OF loop] names loop show ?thesis
    by (simp add: find_players_def)
qed

lemma find_players_ListNames_error:
  "ListNames b = None \<Longrightarrow> find_players b = ([], [Call_ListNames])"
  by (simp add: find_players_def)

text \<open>
  C1. When the name listing returns a list of names, \<^verbatim>\<open>find_players\<close> returns the names
  with the prefix \<^verbatim>\<open>org.mpris.MediaPlayer2.\<close> whose proxy reports the status
  \<^verbatim>\<open>Playing\<close>, in the order of the listing, followed by those whose proxy reports
  \<^verbatim>\<open>Paused\<close>, in the order of the listing. Every name it returns was listed, has the
  prefix and has one of these two statuses: a name that is stopped, has another status or
  none is not returned.
\<close>

theorem find_players_playing_then_paused:
  assumes "ListNames b = Some names"
  shows "fst (find_players b) =
           filter (has_status b ''Playing'') names @ filter (has_status b ''Paused'') names \<and>
         (\<forall>name \<in> set (fst (find_players b)).
            name \<in> set names \<and> g_str_has_prefix name mpris_prefix \<and>
            (status_of b name = Some ''Playing'' \<or> status_of b name = Some ''Paused''))"
proof -
  have ranking: "fst (find_players b) =
      filter (has_status b ''Playing'') names @ filter (has_status b ''Paused'') names"
    using assms by (rule find_players_ranking)
  have "name \<in> set names \<and> g_str_has_prefix name mpris_prefix \<and>
        (status_of b name = Some ''Playing'' \<or> status_of b name = Some ''Paused'')"
    if "name \<in> set (fst (find_players b))" for name
    using that unfolding ranking by (auto simp: has_status_def)
  with ranking show ?thesis by blast
qed

text \<open>
  The players P1 (paused), P2 (playing) and P3 (playing), listed in this order with a
  stopped player and the bus driver, are ranked P2, P3, P1.
\<close>

theorem find_players_playing_then_paused_witness:
  "ListNames ranking_bus =
     Some [''org.freedesktop.DBus'', ''org.mpris.MediaPlayer2.P1'', ''org.mpris.MediaPlayer2.P2'',
           ''org.mpris.MediaPlayer2.P3'', ''org.mpris.MediaPlayer2.P4''] \<and>
   fst (find_players ranking_bus) =
     [''org.mpris.MediaPlayer2.P2'', ''org.mpris.MediaPlayer2.P3'', ''org.mpris.MediaPlayer2.P1'']"
proof -
  have names: "ListNames ranking_bus =
     Some [''org.freedesktop.DBus'', ''org.mpris.MediaPlayer2.P1'', ''org.mpris.MediaPlayer2.P2'',
           ''org.mpris.MediaPlayer2.P3'', ''org.mpris.MediaPlayer2.P4'']"
    by (simp add: ranking_bus_def bus_of_def)
  from find_players_playing_then_paused [OF names]
  have "fst (find_players ranking_bus) =
      filter (has_status ranking_bus ''Playing'')
        [''org.freedesktop.DBus'', ''org.mpris.MediaPlayer2.P1'', ''org.mpris.MediaPlayer2.P2'',
         ''org.mpris.MediaPlayer2.P3'', ''org.mpris.MediaPlayer2.P4''] @
      filter (has_status ranking_bus ''Paused'')
        [''org.freedesktop.DBus'', ''org.mpris.MediaPlayer2.P1'', ''org.mpris.MediaPlayer2.P2'',
         ''org.mpris.MediaPlayer2.P3'', ''org.mpris.MediaPlayer2.P4'']"
    by blast
  also have "\<dots> =
     [''org.mpris.MediaPlayer2.P2'', ''org.mpris.MediaPlayer2.P3'', ''org.mpris.MediaPlayer2.P1'']"
    by (simp add: has_status_def status_of_def g_str_has_prefix_def mpris_prefix_def
        ranking_bus_def bus_of_def proxy_with_status_def)
  finally show ?thesis using names by simp
qed

section \<open>No player\<close>


lemma find_players_loop_calls:
  "find_players_loop b names (pl, pa, cs) = (pl', pa', cs') \<Longrightarrow>
     cs' = cs @ map Call_proxy_new (filter (\<lambda>name. g_str_has_prefix name mpris_prefix) names)"
proof (induction names arbitrary: pl pa cs)
  case Nil
  then show ?case by simp
next
  case (Cons name names)
  from Cons.prems show ?case
    by (auto split: if_splits option.splits dest!: Cons.IH)
qed

lemma find_players_calls:
  "snd (find_players b) =
     Call_ListNames #
     map Call_proxy_new
       (filter (\<lambda>name. g_str_has_prefix name mpris_prefix)
          (case ListNames b of None \<Rightarrow> [] | Some names \<Rightarrow> names))"
proof (cases "ListNames b")
  case None
  then show ?thesis by (simp add: find_players_def)
next
  case (Some names)
  obtain pl pa cs where loop: "find_players_loop b names ([], [], [Call_ListNames]) = (pl, pa, cs)"
    by (cases "find_players_loop b names ([], [], [Call_ListNames])") auto
  from find_players_loop_calls [OF loop] Some loop show ?thesis
    by (simp add: find_players_def)
qed

lemma get_players_json_empty:
  "fst (find_players b) = [] \<Longrightarrow> get_players_json b = (''[]'', snd (find_players b))"
  by (cases "find_players b") (simp add: get_players_json_def)

text \<open>
  C8. \<^verbatim>\<open>find_players\<close> returns the empty list, and no error, when the name listing
  fails and when no listed name qualifies (none has the prefix and the status
  \<^verbatim>\<open>Playing\<close> or \<^verbatim>\<open>Paused\<close>). With no player, the \<^verbatim>\<open>get\<close> command prints
  the line \<^verbatim>\<open>[]\<close> and exits with code 0.
\<close>

theorem no_player_gives_empty_array:
  "(ListNames b = None \<longrightarrow> fst (find_players b) = []) \<and>
   (ListNames b = Some names \<and>
      (\<forall>name \<in> set names. \<not> has_status b ''Playing'' name \<and> \<not> has_status b ''Paused'' name)
      \<longrightarrow> fst (find_players b) = []) \<and>
   (fst (find_players b) = [] \<longrightarrow>
      main (Some b) [prog, ''get''] = (Exit 0, ''[]'' @ newline, snd (find_players b)))"
proof (intro conjI impI)
  assume "ListNames b = None"
  then show "fst (find_players b) = []"
    by (simp add: find_players_ListNames_error)
next
  assume "ListNames b = Some names \<and>
      (\<forall>name \<in> set names. \<not> has_status b ''Playing'' name \<and> \<not> has_status b ''Paused'' name)"
  then show "fst (find_players b) = []"
    by (simp add: find_players_ranking)
next
  assume "fst (find_players b) = []"
  then show "main (Some b) [prog, ''get''] = (Exit 0, ''[]'' @ newline, snd (find_players b))"
    by (simp add: main_def handle_get_def get_players_json_empty)
qed

theorem no_player_gives_empty_array_witness:
  "ListNames silent_bus = None \<and>
   fst (find_players silent_bus) = [] \<and>
   main (Some silent_bus) [''ndfr-media-helper'', ''get''] =
     (Exit 0, ''[]'' @ newline, [Call_ListNames]) \<and>
   ListNames stopped_bus = Some [''org.freedesktop.DBus'', ''org.mpris.MediaPlayer2.vlc''] \<and>
   fst (find_players stopped_bus) = [] \<and>
   main (Some stopped_bus) [''ndfr-media-helper'', ''get''] =
     (Exit 0, ''[]'' @ newline, [Call_ListNames, Call_proxy_new ''org.mpris.MediaPlayer2.vlc''])"
proof -
  have silent: "ListNames silent_bus = None"
    by (simp add: silent_bus_def)
  have stopped: "ListNames stopped_bus = Some [''org.freedesktop.DBus'', ''org.mpris.MediaPlayer2.vlc'']"
    by (simp add: stopped_bus_def bus_of_def)
  have none: "\<forall>name \<in> set [''org.freedesktop.DBus'', ''org.mpris.MediaPlayer2.vlc''].
      \<not> has_status stopped_bus ''Playing'' name \<and> \<not> has_status stopped_bus ''Paused'' name"
    by (simp add: has_status_def status_of_def stopped_bus_def bus_of_def proxy_with_status_def
        g_str_has_prefix_def mpris_prefix_def)
  have calls_silent: "snd (find_players silent_bus) = [Call_ListNames]"
    by (simp add: find_players_calls silent)
  have calls_stopped: "snd (find_players stopped_bus) =
      [Call_ListNames, Call_proxy_new ''org.mpris.MediaPlayer2.vlc'']"
    by (simp add: find_players_calls stopped g_str_has_prefix_def mpris_prefix_def)
  from no_player_gives_empty_array [of silent_bus "[]" "''ndfr-media-helper''"] silent
  have 1: "fst (find_players silent_bus) = []"
    and 2: "main (Some silent_bus) [''ndfr-media-helper'', ''get''] =
      (Exit 0, ''[]'' @ newline, snd (find_players silent_bus))"
    by simp_all
  from no_player_gives_empty_array
    [of stopped_bus "[''org.freedesktop.DBus'', ''org.mpris.MediaPlayer2.vlc'']" "''ndfr-media-helper''"]
    stopped none
  have 3: "fst (find_players stopped_bus) = []"
    and 4: "main (Some stopped_bus) [''ndfr-media-helper'', ''get''] =
      (Exit 0, ''[]'' @ newline, snd (find_players stopped_bus))"
    by blast+
  from silent stopped 1 2 3 4 calls_silent calls_stopped show ?thesis
    by simp
qed


section \<open>A player with no properties\<close>


lemma decimal_0: "decimal 0 = ''0''"
  by code_simp

lemma printf_lld_0: "printf_lld 0 = ''0''"
  by (simp add: printf_lld_def decimal_0 del: decimal.simps)

lemma read_player_state_bare:
  assumes "PlaybackStatus p = None" and "Metadata p = None \<or> Metadata p = Some []"
  shows "read_player_state player_name p =
     \<lparr>status = [],
      position = (case Position p of Some (VInt64 x) \<Rightarrow> x | Some (VUInt64 x) \<Rightarrow> x | _ \<Rightarrow> 0),
      length_usec = 0, title = Some [], artist = None,
      icon_name = (if g_str_has_prefix player_name mpris_prefix
                   then drop (length mpris_prefix) player_name else [])\<rparr>"
  using assms
  by (auto simp: read_player_state_def Let_def split: option.splits gvariant.splits)

text \<open>
  C7. For a player whose proxy holds neither \<^verbatim>\<open>PlaybackStatus\<close> nor any metadata, the
  variables read for it are the empty title, no artist (printed as the empty string), the
  length 0 and the empty status, which the specification reads as \<open>Unknown\<close>; the icon
  is the player's name after the prefix \<^verbatim>\<open>org.mpris.MediaPlayer2.\<close>. The object is
  printed all the same: reading a player does not fail.
\<close>

theorem missing_properties_give_defaults:
  assumes "g_str_has_prefix player_name mpris_prefix"
    and "PlaybackStatus p = None"
    and "Metadata p = None \<or> Metadata p = Some []"
  shows \<open>status (read_player_state player_name p) = [] \<and>
         spec_playback_status (status (read_player_state player_name p)) = Unknown \<and>
         length_usec (read_player_state player_name p) = 0 \<and>
         title (read_player_state player_name p) = Some [] \<and>
         artist (read_player_state player_name p) = None \<and>
         mpris_prefix @ icon_name (read_player_state player_name p) = player_name \<and>
         player_json player_name (read_player_state player_name p) =
           ''{"player_id":"'' @ player_name @ ''","status":"","position":'' @
           printf_lld (sint (position (read_player_state player_name p))) @
           '',"length":0,"title":"","artist":"","icon":"'' @
           drop (length mpris_prefix) player_name @ ''"}'' \<and>
         (proxy_new b player_name = Some p \<longrightarrow>
            get_players_json_loop b [player_name] (json_str, calls) =
              (json_str @ player_json player_name (read_player_state player_name p),
               calls @ [Call_proxy_new player_name]))\<close>
proof -
  note r = read_player_state_bare [OF assms(2,3), of player_name]
  have icon: "mpris_prefix @ drop (length mpris_prefix) player_name = player_name"
    using assms(1) unfolding g_str_has_prefix_def
    by (metis append_take_drop_id)
  show ?thesis
    using assms(1) icon
    by (simp add: r spec_playback_status_def player_json_def printf_s_def printf_lld_0)
qed

theorem missing_properties_give_defaults_witness:
  \<open>g_str_has_prefix ''org.mpris.MediaPlayer2.vlc'' mpris_prefix \<and>
   read_player_state ''org.mpris.MediaPlayer2.vlc'' bare_proxy =
     \<lparr>status = [], position = 0, length_usec = 0, title = Some [], artist = None,
      icon_name = ''vlc''\<rparr> \<and>
   player_json ''org.mpris.MediaPlayer2.vlc''
       (read_player_state ''org.mpris.MediaPlayer2.vlc'' bare_proxy) =
     ''{"player_id":"org.mpris.MediaPlayer2.vlc","status":"","position":0,"length":0,"title":"","artist":"","icon":"vlc"}''\<close>
proof -
  have prefix: "g_str_has_prefix ''org.mpris.MediaPlayer2.vlc'' mpris_prefix"
    by (simp add: g_str_has_prefix_def mpris_prefix_def)
  have bare: "PlaybackStatus bare_proxy = None" "Metadata bare_proxy = None \<or> Metadata bare_proxy = Some []"
    "Position bare_proxy = None"
    by (simp_all add: bare_proxy_def)
  have eq: "r = \<lparr>status = status r, position = position r, length_usec = length_usec r,
      title = title r, artist = artist r, icon_name = icon_name r\<rparr>" for r :: player_state
    by simp
  have pos: "position (read_player_state ''org.mpris.MediaPlayer2.vlc'' bare_proxy) = 0"
    by (simp add: read_player_state_def bare_proxy_def Let_def)
  have icon: "icon_name (read_player_state ''org.mpris.MediaPlayer2.vlc'' bare_proxy) = ''vlc''"
    using missing_properties_give_defaults [OF prefix bare(1,2)]
    by (simp add: mpris_prefix_def)
  from missing_properties_give_defaults [OF prefix bare(1,2)] pos icon prefix
  show ?thesis
    by (subst eq) (simp add: mpris_prefix_def printf_lld_0)
qed


section \<open>The change notifier\<close>




lemma high_frequency_poll_first:
  "high_frequency_poll None b =
     (Some (fst (get_players_json b)), Some (fst (get_players_json b) @ newline),
      snd (get_players_json b))"
  by (cases "get_players_json b") (simp add: high_frequency_poll_def)

lemma high_frequency_poll_next:
  "high_frequency_poll (Some held) b =
     (Some (fst (get_players_json b)),
      (if fst (get_players_json b) = held then None else Some (fst (get_players_json b) @ newline)),
      snd (get_players_json b))"
  by (cases "get_players_json b") (simp add: high_frequency_poll_def)

lemma remdups_adj_Cons_ex: "\<exists>ys. remdups_adj (x # xs) = x # ys"
  by (induction xs) auto

lemma map_remdups_adj_head:
  "map f (remdups_adj (x # xs)) = f x # map f (tl (remdups_adj (x # xs)))"
proof -
  obtain ys where "remdups_adj (x # xs) = x # ys"
    using remdups_adj_Cons_ex [of x xs] by auto
  then show ?thesis by simp
qed

lemma listen_ticks_held:
  "snd (listen_ticks (Some held) ticks) =
     map (\<lambda>j. j @ newline)
       (tl (remdups_adj (held # map (\<lambda>b. fst (get_players_json b)) ticks)))"
proof (induction ticks arbitrary: held)
  case Nil
  show ?case by simp
next
  case (Cons b ticks)
  show ?case
  proof (cases "fst (get_players_json b) = held")
    case True
    then show ?thesis
      using Cons.IH [of held]
      by (simp add: high_frequency_poll_next split: prod.splits)
  next
    case False
    have "snd (listen_ticks (Some held) (b # ticks)) =
        (fst (get_players_json b) @ newline) # snd (listen_ticks (Some (fst (get_players_json b))) ticks)"
      using False by (simp add: high_frequency_poll_next split: prod.splits)
    also have "\<dots> = (fst (get_players_json b) @ newline) #
        map (\<lambda>j. j @ newline)
          (tl (remdups_adj (fst (get_players_json b) # map (\<lambda>b. fst (get_players_json b)) ticks)))"
      by (simp add: Cons.IH)
    also have "\<dots> = map (\<lambda>j. j @ newline)
        (remdups_adj (fst (get_players_json b) # map (\<lambda>b. fst (get_players_json b)) ticks))"
      by (rule map_remdups_adj_head [symmetric])
    finally show ?thesis
      using False by simp
  qed
qed

lemma handle_listen_remdups_adj:
  "handle_listen ticks =
     map (\<lambda>j. j @ newline) (remdups_adj (map (\<lambda>b. fst (get_players_json b)) ticks))"
proof (cases ticks)
  case Nil
  then show ?thesis by (simp add: handle_listen_def)
next
  case (Cons b rest)
  have "handle_listen (b # rest) =
      (fst (get_players_json b) @ newline) # snd (listen_ticks (Some (fst (get_players_json b))) rest)"
    by (simp add: handle_listen_def high_frequency_poll_first split: prod.splits)
  also have "\<dots> = (fst (get_players_json b) @ newline) #
      map (\<lambda>j. j @ newline)
        (tl (remdups_adj (fst (get_players_json b) # map (\<lambda>b. fst (get_players_json b)) rest)))"
    by (simp add: listen_ticks_held)
  also have "\<dots> = map (\<lambda>j. j @ newline)
      (remdups_adj (fst (get_players_json b) # map (\<lambda>b. fst (get_players_json b)) rest))"
    by (rule map_remdups_adj_head [symmetric])
  finally show ?thesis using Cons by simp
qed

text \<open>
  C2. The first call of \<^verbatim>\<open>high_frequency_poll\<close> prints the serialized snapshot
  whatever it is. A later call prints it if and only if it differs from the held one,
  which is the one printed last; after every call the held snapshot is the one of that
  call. So the lines printed over a run are the snapshots of the ticks with each
  repetition of the one before left out, and three ticks with the payloads A, A, B print A
  and then B.
\<close>

theorem change_notifier_emits_on_change:
  "fst (high_frequency_poll None b) = Some (fst (get_players_json b)) \<and>
   fst (snd (high_frequency_poll None b)) = Some (fst (get_players_json b) @ newline) \<and>
   fst (high_frequency_poll (Some held) b) = Some (fst (get_players_json b)) \<and>
   fst (snd (high_frequency_poll (Some held) b)) =
     (if fst (get_players_json b) = held then None
      else Some (fst (get_players_json b) @ newline)) \<and>
   handle_listen ticks =
     map (\<lambda>j. j @ newline) (remdups_adj (map (\<lambda>b. fst (get_players_json b)) ticks)) \<and>
   (fst (get_players_json b1) = A \<and> fst (get_players_json b2) = A \<and>
    fst (get_players_json b3) = B \<and> A \<noteq> B \<longrightarrow>
      handle_listen [b1, b2, b3] = [A @ newline, B @ newline])"
proof -
  have "handle_listen [b1, b2, b3] = [A @ newline, B @ newline]"
    if "fst (get_players_json b1) = A \<and> fst (get_players_json b2) = A \<and>
        fst (get_players_json b3) = B \<and> A \<noteq> B"
    using that by (simp add: handle_listen_remdups_adj)
  then show ?thesis
    by (simp add: high_frequency_poll_first high_frequency_poll_next handle_listen_remdups_adj)
qed

lemma get_players_json_stopped_bus: "fst (get_players_json stopped_bus) = ''[]''"
  by code_simp

lemma get_players_json_playing_bus:
  \<open>fst (get_players_json playing_bus) =
     ''[{"player_id":"org.mpris.MediaPlayer2.vlc","status":"Playing","position":0,"length":0,"title":"","artist":"","icon":"vlc"}]''\<close>
  by code_simp

theorem change_notifier_emits_on_change_witness:
  \<open>fst (get_players_json stopped_bus) = ''[]'' \<and>
   fst (get_players_json playing_bus) =
     ''[{"player_id":"org.mpris.MediaPlayer2.vlc","status":"Playing","position":0,"length":0,"title":"","artist":"","icon":"vlc"}]'' \<and>
   handle_listen [stopped_bus, stopped_bus, playing_bus] =
     [''[]'' @ newline,
      ''[{"player_id":"org.mpris.MediaPlayer2.vlc","status":"Playing","position":0,"length":0,"title":"","artist":"","icon":"vlc"}]'' @ newline]\<close>
proof -
  have differ: \<open>''[]'' \<noteq>
      ''[{"player_id":"org.mpris.MediaPlayer2.vlc","status":"Playing","position":0,"length":0,"title":"","artist":"","icon":"vlc"}]''\<close>
    by simp
  from change_notifier_emits_on_change
    [of _ _ _ stopped_bus "''[]''" stopped_bus playing_bus
      \<open>''[{"player_id":"org.mpris.MediaPlayer2.vlc","status":"Playing","position":0,"length":0,"title":"","artist":"","icon":"vlc"}]''\<close>]
    get_players_json_stopped_bus get_players_json_playing_bus differ
  show ?thesis by blast
qed

section \<open>The \<^verbatim>\<open>play-pause\<close> command\<close>

text \<open>
  C9, as the program has it. \<^verbatim>\<open>play-pause\<close> exits with code 0 whenever it has a
  target, the player named on the command line or else the first of the ranking, and it
  makes the one \<^verbatim>\<open>PlayPause\<close> call; the statement holds on every bus, so also where
  that call fails. It exits with code 1 when no player is named and none is ranked, and
  when there is no connection to the bus.
\<close>

theorem play_pause_ignores_toggle_failure:
  "main (Some b) (prog # ''play-pause'' # player # extra) = (Exit 0, [], [Call_PlayPause player]) \<and>
   (fst (find_players b) = player # others \<longrightarrow>
      main (Some b) [prog, ''play-pause''] =
        (Exit 0, [], snd (find_players b) @ [Call_PlayPause player])) \<and>
   (fst (find_players b) = [] \<longrightarrow>
      main (Some b) [prog, ''play-pause''] = (Exit 1, [], snd (find_players b))) \<and>
   main None (prog # ''play-pause'' # args) = (Exit 1, [], [])"
  by (cases "find_players b") (simp add: main_def handle_play_pause_def)

theorem play_pause_ignores_toggle_failure_witness:
  "PlayPause_error toggle_fails_bus ''org.mpris.MediaPlayer2.vlc'' \<and>
   fst (find_players toggle_fails_bus) = [''org.mpris.MediaPlayer2.vlc''] \<and>
   main (Some toggle_fails_bus) [''ndfr-media-helper'', ''play-pause''] =
     (Exit 0, [],
      [Call_ListNames, Call_proxy_new ''org.mpris.MediaPlayer2.vlc'',
       Call_PlayPause ''org.mpris.MediaPlayer2.vlc'']) \<and>
   fst (find_players silent_bus) = [] \<and>
   main (Some silent_bus) [''ndfr-media-helper'', ''play-pause''] = (Exit 1, [], [Call_ListNames])"
proof -
  have fails: "PlayPause_error toggle_fails_bus ''org.mpris.MediaPlayer2.vlc''"
    by (simp add: toggle_fails_bus_def)
  have players: "find_players toggle_fails_bus =
      ([''org.mpris.MediaPlayer2.vlc''], [Call_ListNames, Call_proxy_new ''org.mpris.MediaPlayer2.vlc''])"
    by code_simp
  have none: "find_players silent_bus = ([], [Call_ListNames])"
    by code_simp
  from play_pause_ignores_toggle_failure
    [where b = toggle_fails_bus and prog = "''ndfr-media-helper''"
       and player = "''org.mpris.MediaPlayer2.vlc''" and others = "[]"]
    play_pause_ignores_toggle_failure [where b = silent_bus and prog = "''ndfr-media-helper''"]
    fails players none
  show ?thesis by simp
qed

text \<open>
  C9 as stated fails: on a bus where the \<^verbatim>\<open>PlayPause\<close> call ends in an error, the
  command still exits with code 0.
\<close>

theorem play_pause_failure_counterexample:
  "PlayPause_error toggle_fails_bus ''org.mpris.MediaPlayer2.vlc'' \<and>
   main (Some toggle_fails_bus) [''ndfr-media-helper'', ''play-pause'', ''org.mpris.MediaPlayer2.vlc''] =
     (Exit 0, [], [Call_PlayPause ''org.mpris.MediaPlayer2.vlc''])"
  by (simp add: toggle_fails_bus_def main_def handle_play_pause_def)



section \<open>Seeking to an absolute position\<close>

lemma handle_set_position_seeks:
  assumes "proxy_new b pid = Some p"
    and "CanSeek p = Some (VBoolean True)"
    and "Position p = Some (VInt64 current_pos)"
  shows "handle_set_position b (Some pid) pos_str =
           (if Seek_error b pid (atoll pos_str - current_pos) then 1 else 0,
            [Call_proxy_new pid, Call_Seek pid (atoll pos_str - current_pos)])"
  using assms by (simp add: handle_set_position_def)

lemma sint_diff_in_range:
  fixes x y :: "64 word"
  assumes "- (2 ^ 63) \<le> sint x - sint y" and "sint x - sint y < 2 ^ 63"
  shows "sint (x - y) = sint x - sint y"
proof -
  have "sint (x - y) = signed_take_bit 63 (sint x - sint y)"
    by (simp add: sint_word_ariths)
  also have "\<dots> = sint x - sint y"
    using assms by (simp add: signed_take_bit_int_eq_self)
  finally show ?thesis .
qed

text \<open>
  With a \<^verbatim>\<open>Position\<close> that is a signed 64-bit integer the offset is the one the
  specification asks for. On a player whose proxy can be built and whose \<^verbatim>\<open>CanSeek\<close>
  is true, \<^verbatim>\<open>handle_set_position\<close> calls \<^verbatim>\<open>Seek\<close> once, with the offset
  \<open>target - current_pos\<close>, where the target is \<^verbatim>\<open>atoll\<close> of the argument; the
  result is 0 unless that call fails. The difference is that of 64-bit integers, and the
  integer difference whenever that fits.
\<close>

theorem absolute_seek_offset:
  assumes "proxy_new b pid = Some p"
    and "CanSeek p = Some (VBoolean True)"
    and "Position p = Some (VInt64 current_pos)"
  shows "handle_set_position b (Some pid) pos_str =
           (if Seek_error b pid (atoll pos_str - current_pos) then 1 else 0,
            [Call_proxy_new pid, Call_Seek pid (atoll pos_str - current_pos)]) \<and>
         (- (2 ^ 63) \<le> sint (atoll pos_str) - sint current_pos \<and>
          sint (atoll pos_str) - sint current_pos < 2 ^ 63 \<longrightarrow>
            sint (atoll pos_str - current_pos) = sint (atoll pos_str) - sint current_pos)"
proof (intro conjI impI)
  show "handle_set_position b (Some pid) pos_str =
           (if Seek_error b pid (atoll pos_str - current_pos) then 1 else 0,
            [Call_proxy_new pid, Call_Seek pid (atoll pos_str - current_pos)])"
    by (rule handle_set_position_seeks [OF assms])
next
  assume "- (2 ^ 63) \<le> sint (atoll pos_str) - sint current_pos \<and>
          sint (atoll pos_str) - sint current_pos < 2 ^ 63"
  then show "sint (atoll pos_str - current_pos) = sint (atoll pos_str) - sint current_pos"
    using sint_diff_in_range [of "atoll pos_str" current_pos] by (elim conjE)
qed

lemma atoll_8000000: "atoll ''8000000'' = 8000000"
  by code_simp

text \<open>At position 5,000,000 with the target 8,000,000 the offset is 3,000,000.\<close>

theorem absolute_seek_offset_witness:
  "handle_set_position (seek_bus 5000000 200000000) (Some ''org.mpris.MediaPlayer2.vlc'') ''8000000'' =
     (0, [Call_proxy_new ''org.mpris.MediaPlayer2.vlc'',
          Call_Seek ''org.mpris.MediaPlayer2.vlc'' 3000000]) \<and>
   sint (atoll ''8000000'') = 8000000 \<and>
   sint (atoll ''8000000'' - (5000000 :: 64 word)) = 3000000"
proof -
  have p: "proxy_new (seek_bus 5000000 200000000) ''org.mpris.MediaPlayer2.vlc'' =
      Some (seek_proxy 5000000 200000000)"
    by (simp add: seek_bus_def bus_of_def)
  have c: "CanSeek (seek_proxy 5000000 200000000) = Some (VBoolean True)"
    and q: "Position (seek_proxy 5000000 200000000) = Some (VInt64 5000000)"
    by (simp_all add: seek_proxy_def)
  have ok: "\<not> Seek_error (seek_bus 5000000 200000000) name offset" for name offset
    by (simp add: seek_bus_def bus_of_def)
  from absolute_seek_offset [OF p c q, of "''8000000''"] ok
  show ?thesis by (simp add: atoll_8000000)
qed


text \<open>
  C3 fails on the code for a position encoded as an unsigned 64-bit integer.
  \<^verbatim>\<open>get_players_json\<close> reads such a \<^verbatim>\<open>Position\<close> and reports it (lines 110 to
  114), so it is a readable current position. \<^verbatim>\<open>handle_set_position\<close> applies
  \<^verbatim>\<open>g_variant_get_int64\<close> to it with no test of the type and gets 0, so
  \<^verbatim>\<open>Seek\<close> is called with the target itself as the offset, not with
  \<open>target - current_pos\<close>.
\<close>

theorem absolute_seek_reads_uint64_position_as_zero:
  assumes "proxy_new b pid = Some p"
    and "CanSeek p = Some (VBoolean True)"
    and "Position p = Some (VUInt64 current_pos)"
  shows "position (read_player_state pid p) = current_pos \<and>
         handle_set_position b (Some pid) pos_str =
           (if Seek_error b pid (atoll pos_str) then 1 else 0,
            [Call_proxy_new pid, Call_Seek pid (atoll pos_str)])"
proof
  have keep: "position (metadata_loop entries r) = position r" for entries r
    by (induction entries r rule: metadata_loop.induct)
      (auto split: gvariant.splits list.splits)
  show "position (read_player_state pid p) = current_pos"
    using assms(3)
    by (simp add: read_player_state_def Let_def keep split: option.splits)
  show "handle_set_position b (Some pid) pos_str =
      (if Seek_error b pid (atoll pos_str) then 1 else 0,
       [Call_proxy_new pid, Call_Seek pid (atoll pos_str)])"
    using assms by (simp add: handle_set_position_def)
qed

text \<open>
  At position 5,000,000, encoded as unsigned, with the target 8,000,000 the program seeks
  by 8,000,000 and not by 3,000,000.
\<close>

theorem absolute_seek_reads_uint64_position_as_zero_witness:
  "position (read_player_state ''org.mpris.MediaPlayer2.vlc''
      ((seek_proxy 0 200000000)\<lparr>Position := Some (VUInt64 5000000)\<rparr>)) = 5000000 \<and>
   handle_set_position uint64_position_bus (Some ''org.mpris.MediaPlayer2.vlc'') ''8000000'' =
     (0, [Call_proxy_new ''org.mpris.MediaPlayer2.vlc'',
          Call_Seek ''org.mpris.MediaPlayer2.vlc'' 8000000]) \<and>
   (8000000 :: 64 word) \<noteq> 8000000 - 5000000"
proof -
  have p: "proxy_new uint64_position_bus ''org.mpris.MediaPlayer2.vlc'' =
      Some ((seek_proxy 0 200000000)\<lparr>Position := Some (VUInt64 5000000)\<rparr>)"
    by (simp add: uint64_position_bus_def bus_of_def)
  have c: "CanSeek ((seek_proxy 0 200000000)\<lparr>Position := Some (VUInt64 5000000)\<rparr>) =
      Some (VBoolean True)"
    and q: "Position ((seek_proxy 0 200000000)\<lparr>Position := Some (VUInt64 5000000)\<rparr>) =
      Some (VUInt64 5000000)"
    by (simp_all add: seek_proxy_def)
  have ok: "\<not> Seek_error uint64_position_bus name offset" for name offset
    by (simp add: uint64_position_bus_def bus_of_def)
  from absolute_seek_reads_uint64_position_as_zero [OF p c q, of "''8000000''"] ok
  show ?thesis by (simp add: atoll_8000000)
qed

section \<open>Seeking needs the capability\<close>

lemma find_players_no_seek: "Call_Seek name offset \<notin> set (snd (find_players b))"
  by (auto simp: find_players_calls)

lemma handle_set_position_cannot_seek:
  assumes "proxy_new b pid = Some p"
    and "CanSeek p = None \<or> CanSeek p = Some (VBoolean False)"
  shows "handle_set_position b (Some pid) pos_str = (1, [Call_proxy_new pid])"
  using assms by (auto simp: handle_set_position_def)

lemma handle_set_position_percent_cannot_seek:
  assumes "proxy_new b pid = Some p"
    and "CanSeek p = None \<or> CanSeek p = Some (VBoolean False)"
  shows "handle_set_position_percent b (Some pid) percent_str = Some (1, [Call_proxy_new pid])"
  using assms by (auto simp: handle_set_position_percent_def)

text \<open>
  C6. When the \<^verbatim>\<open>CanSeek\<close> property of the target is absent or false, both seek
  handlers return 1 after building the proxy, and the commands \<^verbatim>\<open>set-position\<close>
  and \<^verbatim>\<open>set-position-percent\<close> exit with code 1, whether the player is named or is
  the first of the ranking. The calls made are the name listing and proxy constructions:
  \<^verbatim>\<open>Seek\<close> is not among them.
\<close>

theorem seek_fails_without_can_seek:
  assumes "proxy_new b pid = Some p"
    and "CanSeek p = None \<or> CanSeek p = Some (VBoolean False)"
  shows "handle_set_position b (Some pid) pos_str = (1, [Call_proxy_new pid]) \<and>
         handle_set_position_percent b (Some pid) percent_str = Some (1, [Call_proxy_new pid]) \<and>
         main (Some b) [prog, ''set-position'', pid, pos_str] =
           (Exit 1, [], [Call_proxy_new pid]) \<and>
         main (Some b) [prog, ''set-position-percent'', pid, percent_str] =
           (Exit 1, [], [Call_proxy_new pid]) \<and>
         (fst (find_players b) = pid # others \<longrightarrow>
            main (Some b) [prog, ''set-position'', pos_str] =
              (Exit 1, [], snd (find_players b) @ [Call_proxy_new pid]) \<and>
            main (Some b) [prog, ''set-position-percent'', percent_str] =
              (Exit 1, [], snd (find_players b) @ [Call_proxy_new pid])) \<and>
         (\<forall>name offset. Call_Seek name offset \<notin> set (snd (find_players b) @ [Call_proxy_new pid]))"
proof -
  note abs = handle_set_position_cannot_seek [OF assms]
  note pct = handle_set_position_percent_cannot_seek [OF assms]
  have explicit_abs: "main (Some b) [prog, ''set-position'', pid, pos_str] =
      (Exit 1, [], [Call_proxy_new pid])"
    by (simp add: main_def seek_outcome_def abs)
  have explicit_pct: "main (Some b) [prog, ''set-position-percent'', pid, percent_str] =
      (Exit 1, [], [Call_proxy_new pid])"
    by (simp add: main_def seek_outcome_def pct)
  have default_abs: "main (Some b) [prog, ''set-position'', pos_str] =
      (Exit 1, [], snd (find_players b) @ [Call_proxy_new pid])"
    if "fst (find_players b) = pid # others"
    using that by (cases "find_players b") (simp add: main_def seek_outcome_def abs)
  have default_pct: "main (Some b) [prog, ''set-position-percent'', percent_str] =
      (Exit 1, [], snd (find_players b) @ [Call_proxy_new pid])"
    if "fst (find_players b) = pid # others"
    using that by (cases "find_players b") (simp add: main_def seek_outcome_def pct)
  have no_seek: "\<forall>name offset. Call_Seek name offset \<notin> set (snd (find_players b) @ [Call_proxy_new pid])"
    by (simp add: find_players_no_seek)
  from abs pct explicit_abs explicit_pct default_abs default_pct no_seek
  show ?thesis by blast
qed

lemma find_players_no_seek_bus:
  "find_players no_seek_bus =
     ([''org.mpris.MediaPlayer2.vlc''], [Call_ListNames, Call_proxy_new ''org.mpris.MediaPlayer2.vlc''])"
  by code_simp

theorem seek_fails_without_can_seek_witness:
  "CanSeek ((seek_proxy 5000000 200000000)\<lparr>CanSeek := Some (VBoolean False)\<rparr>) = Some (VBoolean False) \<and>
   handle_set_position no_seek_bus (Some ''org.mpris.MediaPlayer2.vlc'') ''8000000'' =
     (1, [Call_proxy_new ''org.mpris.MediaPlayer2.vlc'']) \<and>
   handle_set_position_percent no_seek_bus (Some ''org.mpris.MediaPlayer2.vlc'') ''50.0'' =
     Some (1, [Call_proxy_new ''org.mpris.MediaPlayer2.vlc'']) \<and>
   main (Some no_seek_bus) [''ndfr-media-helper'', ''set-position'', ''8000000''] =
     (Exit 1, [],
      [Call_ListNames, Call_proxy_new ''org.mpris.MediaPlayer2.vlc'',
       Call_proxy_new ''org.mpris.MediaPlayer2.vlc'']) \<and>
   main (Some no_seek_bus) [''ndfr-media-helper'', ''set-position-percent'', ''50.0''] =
     (Exit 1, [],
      [Call_ListNames, Call_proxy_new ''org.mpris.MediaPlayer2.vlc'',
       Call_proxy_new ''org.mpris.MediaPlayer2.vlc''])"
proof -
  have p: "proxy_new no_seek_bus ''org.mpris.MediaPlayer2.vlc'' =
      Some ((seek_proxy 5000000 200000000)\<lparr>CanSeek := Some (VBoolean False)\<rparr>)"
    by (simp add: no_seek_bus_def bus_of_def)
  have c: "CanSeek ((seek_proxy 5000000 200000000)\<lparr>CanSeek := Some (VBoolean False)\<rparr>) = None \<or>
      CanSeek ((seek_proxy 5000000 200000000)\<lparr>CanSeek := Some (VBoolean False)\<rparr>) = Some (VBoolean False)"
    by simp
  from seek_fails_without_can_seek
    [OF p c, where pos_str = "''8000000''" and percent_str = "''50.0''"
       and prog = "''ndfr-media-helper''" and others = "[]"]
  show ?thesis by (simp add: find_players_no_seek_bus)
qed

section \<open>Rounding to a double\<close>

subsection \<open>The exponent of a positive rational\<close>

lemma bitlen_unfold: "0 < n \<Longrightarrow> bitlen n = 1 + bitlen (n div 2)"
  by (subst bitlen.simps) simp

lemma bitlen_nonpos: "n \<le> 0 \<Longrightarrow> bitlen n = 0"
  by (subst bitlen.simps) simp

lemma bitlen_bounds:
  "0 < n \<Longrightarrow> 0 < bitlen n \<and> 2 ^ nat (bitlen n - 1) \<le> n \<and> n < 2 ^ nat (bitlen n)"
proof (induction n rule: bitlen.induct)
  case (1 n)
  show ?case
  proof (cases "n div 2 = 0")
    case True
    with "1.prems" have "n = 1" by presburger
    then show ?thesis
      by (simp add: bitlen_unfold bitlen_nonpos)
  next
    case False
    with "1.prems" have pos: "0 < n div 2" by presburger
    define k where "k = bitlen (n div 2)"
    from "1.IH" "1.prems" pos
    have ih: "0 < k" "2 ^ nat (k - 1) \<le> n div 2" "n div 2 < 2 ^ nat k"
      by (simp_all add: k_def)
    have split: "(2::int) ^ nat k = 2 * 2 ^ nat (k - 1)"
    proof -
      have "nat k = Suc (nat (k - 1))" using ih(1) by simp
      then show ?thesis by simp
    qed
    have bl: "bitlen n = 1 + k"
      using "1.prems" by (simp add: bitlen_unfold k_def)
    have "(2::int) ^ nat k \<le> 2 * (n div 2)"
      using ih(2) split by simp
    also have "\<dots> \<le> n" by presburger
    finally have lower: "2 ^ nat k \<le> n" .
    have "n < 2 * (n div 2) + 2" by presburger
    also have "\<dots> \<le> 2 * 2 ^ nat k"
      using ih(3) by simp
    finally have upper: "n < 2 * 2 ^ nat k" .
    have "nat (1 + k) = Suc (nat k)" using ih(1) by simp
    with lower upper ih(1) show ?thesis
      by (simp add: bl)
  qed
qed

lemma ilog2_bounds:
  assumes "0 < x"
  shows "2 powi (ilog2 x) \<le> x \<and> x < 2 powi (ilog2 x + 1)"
proof -
  obtain a b where q: "quotient_of x = (a, b)"
    by (cases "quotient_of x") auto
  have b: "0 < b" using q by (rule quotient_of_denom_pos)
  have x: "x = of_int a / of_int b" using q by (rule quotient_of_div)
  have a: "0 < a"
    using assms b unfolding x by (simp add: zero_less_divide_iff)
  define la where "la = nat (bitlen a)"
  define lb where "lb = nat (bitlen b)"
  define d where "d = int la - int lb"
  have pred: "nat (k - 1) = nat k - 1" for k :: int
    by simp
  from bitlen_bounds [OF a]
  have la_pos: "0 < la" and la: "int la = bitlen a"
    and A: "2 ^ (la - 1) \<le> a" "a < 2 ^ la"
    unfolding pred la_def by simp_all
  from bitlen_bounds [OF b]
  have lb_pos: "0 < lb" and lb: "int lb = bitlen b"
    and B: "2 ^ (lb - 1) \<le> b" "b < 2 ^ lb"
    unfolding pred lb_def by simp_all
  have A1: "(2::int) ^ la \<le> 2 * a"
  proof -
    have "(2::int) ^ la = 2 * 2 ^ (la - 1)" using la_pos by (cases la) auto
    with A(1) show ?thesis by simp
  qed
  note A2 = A(2)
  have B1: "(2::int) ^ lb \<le> 2 * b"
  proof -
    have "(2::int) ^ lb = 2 * 2 ^ (lb - 1)" using lb_pos by (cases lb) auto
    with B(1) show ?thesis by simp
  qed
  note B2 = B(2)
  have pd: "(2::rat) powi d = 2 ^ la / 2 ^ lb"
    by (simp add: d_def power_int_diff)
  have upper: "x < 2 powi (d + 1)"
  proof -
    have "a * 2 ^ lb < 2 ^ la * (2 * b)"
    proof -
      have "a * 2 ^ lb \<le> a * (2 * b)" using B1 a by simp
      also have "\<dots> < 2 ^ la * (2 * b)" using A2 b by simp
      finally show ?thesis .
    qed
    then have "(of_int (a * 2 ^ lb) :: rat) < of_int (2 ^ la * (2 * b))"
      by (rule iffD2 [OF of_int_less_iff])
    then have "(of_int a :: rat) * 2 ^ lb < 2 * 2 ^ la * of_int b"
      by (simp add: mult_ac)
    then have "(of_int a :: rat) / of_int b < 2 * 2 ^ la / 2 ^ lb"
      using b by (simp add: field_simps)
    then show ?thesis
      by (simp add: x pd power_int_add mult_ac)
  qed
  have lower: "2 powi (d - 1) \<le> x"
  proof -
    have "2 ^ la * b \<le> (2 * a) * 2 ^ lb"
    proof -
      have "2 ^ la * b \<le> (2 * a) * b" using A1 b by simp
      also have "\<dots> \<le> (2 * a) * 2 ^ lb" using B2 a by simp
      finally show ?thesis .
    qed
    then have "(of_int (2 ^ la * b) :: rat) \<le> of_int ((2 * a) * 2 ^ lb)"
      by (rule iffD2 [OF of_int_le_iff])
    then have "(2::rat) ^ la * of_int b \<le> 2 * of_int a * 2 ^ lb"
      by simp
    then have "(2::rat) ^ la / (2 * 2 ^ lb) \<le> of_int a / of_int b"
      using b by (simp add: field_simps)
    then show ?thesis
      by (simp add: x pd power_int_diff mult_ac)
  qed
  have il: "ilog2 x = (if 2 powi d \<le> x then d else d - 1)"
    by (simp add: ilog2_def q Let_def d_def la lb)
  show ?thesis
  proof (cases "2 powi d \<le> x")
    case True
    with il upper show ?thesis by simp
  next
    case False
    with il lower show ?thesis by simp
  qed
qed

subsection \<open>Rounding\<close>

lemma round_ties_even_error: "\<bar>of_int (round_ties_even x) - x\<bar> \<le> 1 / 2"
proof -
  have "of_int \<lfloor>x\<rfloor> \<le> x" "x < of_int \<lfloor>x\<rfloor> + 1"
    by linarith+
  then show ?thesis
    by (auto simp: round_ties_even_def Let_def)
qed

lemma round_ties_even_of_int: "round_ties_even (of_int k) = k"
  by (simp add: round_ties_even_def)

lemma round_ties_even_nonneg: "0 \<le> x \<Longrightarrow> 0 \<le> round_ties_even x"
proof -
  assume "0 \<le> x"
  then have "0 \<le> \<lfloor>x\<rfloor>" by simp
  then show ?thesis
    by (auto simp: round_ties_even_def Let_def)
qed

text \<open>The spacing of the doubles around a positive magnitude.\<close>

lemma quantum_le:
  assumes "0 < m"
  shows "2 powi (max (ilog2 m - 52) (- 1074)) \<le> max (m / 2 ^ 52) (2 powi (- 1074))"
proof (cases "- 1074 \<le> ilog2 m - 52")
  case True
  have "2 powi (ilog2 m - 52) = 2 powi (ilog2 m) / (2 ^ 52 :: rat)"
    by (simp add: power_int_diff)
  also have "\<dots> \<le> m / 2 ^ 52"
    using ilog2_bounds [OF assms] by (simp add: divide_right_mono)
  finally show ?thesis
    using True by (simp add: max_def)
next
  case False
  then show ?thesis by (simp add: max_def)
qed

lemma to_double_zero: "to_double s 0 = Finite s 0"
  by (simp add: to_double_def)

lemma to_double_finite:
  assumes "0 < m" and "m \<le> 2 ^ 1000"
  shows "\<exists>r. to_double s m = Finite s r \<and> 0 \<le> r \<and>
             \<bar>r - m\<bar> \<le> max (m / 2 ^ 52) (2 powi (- 1074)) / 2"
proof -
  define q :: rat where "q = 2 powi (max (ilog2 m - 52) (- 1074))"
  define u :: rat where "u = max (m / 2 ^ 52) (2 powi (- 1074))"
  define k where "k = round_ties_even (m / q)"
  define r where "r = of_int k * q"
  have q_pos: "0 < q" by (simp add: q_def)
  have q_le: "q \<le> u"
    unfolding q_def u_def using assms(1) by (rule quantum_le)
  have k_nonneg: "0 \<le> k"
    unfolding k_def using assms(1) q_pos by (intro round_ties_even_nonneg) simp
  have r_nonneg: "0 \<le> r"
    unfolding r_def using k_nonneg q_pos by simp
  have "\<bar>r - m\<bar> = q * \<bar>of_int k - m / q\<bar>"
  proof -
    have "r - m = q * (of_int k - m / q)"
      using q_pos by (simp add: r_def field_simps)
    then show ?thesis
      using q_pos by (simp add: abs_mult)
  qed
  also have "\<dots> \<le> q * (1 / 2)"
    using round_ties_even_error [of "m / q"] q_pos
    unfolding k_def by (intro mult_left_mono) simp_all
  finally have err: "\<bar>r - m\<bar> \<le> q / 2" by simp
  with q_le have err': "\<bar>r - m\<bar> \<le> u / 2"
    by linarith
  have u_le: "u \<le> 2 ^ 1000"
  proof -
    have "m / 2 ^ 52 \<le> m" using assms(1) by (simp add: field_simps)
    moreover have "(2::rat) powi (- 1074) \<le> 2 ^ 1000"
      by (simp add: power_int_minus field_simps)
    ultimately show ?thesis using assms(2) by (simp add: u_def)
  qed
  have "r \<le> m + u / 2" using err' by linarith
  also have "\<dots> \<le> 2 ^ 1000 + 2 ^ 1000 / 2" using u_le assms(2) by linarith
  also have "\<dots> < (2 ^ 1024 :: rat)" by simp
  finally have "r < 2 ^ 1024" .
  then have "to_double s m = Finite s r"
    using assms(1) by (simp add: to_double_def Let_def q_def k_def r_def)
  with r_nonneg err' show ?thesis unfolding u_def by blast
qed

lemma ilog2_less:
  assumes "0 < m" and "m < 2 powi n"
  shows "ilog2 m < n"
proof (rule ccontr)
  assume "\<not> ilog2 m < n"
  then have "(2::rat) powi n \<le> 2 powi (ilog2 m)"
    by (intro power_int_increasing) simp_all
  with ilog2_bounds [OF assms(1)] assms(2) show False by linarith
qed

lemma ilog2_ge:
  assumes "0 < m" and "2 powi n \<le> m"
  shows "n \<le> ilog2 m"
proof (rule ccontr)
  assume "\<not> n \<le> ilog2 m"
  then have "(2::rat) powi (ilog2 m + 1) \<le> 2 powi n"
    by (intro power_int_increasing) simp_all
  with ilog2_bounds [OF assms(1)] assms(2) show False by linarith
qed

lemma to_double_exact_int:
  assumes "0 < n" and "n < 2 ^ 53"
  shows "to_double s (of_int n) = Finite s (of_int n)"
proof -
  define m :: rat where "m = of_int n"
  have m_pos: "0 < m" using assms(1) by (simp add: m_def)
  have "m < of_int (2 ^ 53)"
    unfolding m_def using assms(2) by (rule iffD2 [OF of_int_less_iff])
  then have m_less: "m < 2 powi 53" by simp
  have "of_int 1 \<le> m"
    unfolding m_def using assms(1) by (intro iffD2 [OF of_int_le_iff]) simp
  then have m_ge: "2 powi 0 \<le> m" by simp
  have hi: "ilog2 m < 53" using m_pos m_less by (rule ilog2_less)
  have lo: "0 \<le> ilog2 m" using m_pos m_ge by (rule ilog2_ge)
  define j where "j = nat (52 - ilog2 m)"
  define R :: rat where "R = of_int (round_ties_even (m / 2 powi (max (ilog2 m - 52) (- 1074)))) *
      2 powi (max (ilog2 m - 52) (- 1074))"
  have e: "max (ilog2 m - 52) (- 1074) = - int j"
    using hi lo by (simp add: j_def)
  have q: "(2::rat) powi (- int j) = 1 / 2 ^ j"
    by (simp add: power_int_minus_divide)
  have scaled: "m / (1 / 2 ^ j) = of_int (n * 2 ^ j)"
    by (simp add: m_def)
  have unscaled: "of_int (n * 2 ^ j) * (1 / 2 ^ j) = m"
    by (simp add: m_def)
  have R: "R = m"
    unfolding R_def e q scaled round_ties_even_of_int by (rule unscaled)
  have "m < 2 ^ 1024"
  proof -
    have "m < 2 ^ 53" using m_less by simp
    also have "\<dots> < (2 ^ 1024 :: rat)" by simp
    finally show ?thesis .
  qed
  moreover have "to_double s m =
      (if m = 0 then Finite s 0 else if of_int (2 ^ 1024) \<le> R then Infinite s else Finite s R)"
    unfolding to_double_def Let_def R_def by (rule refl)
  ultimately have "to_double s m = Finite s m"
    using m_pos by (simp add: R)
  then show ?thesis by (simp only: m_def)
qed

lemma int64_to_double_pos:
  assumes "0 < sint x"
  shows "int64_to_double x = to_double False (of_int (sint x))"
proof -
  have "\<not> sint x < 0" "\<bar>sint x\<bar> = sint x"
    using assms by simp_all
  then show ?thesis
    unfolding int64_to_double_def by (simp only:)
qed

lemma int64_to_double_finite:
  assumes "0 < sint x"
  shows "\<exists>r. int64_to_double x = Finite False r \<and> 0 \<le> r"
proof -
  define v where "v = sint x"
  have "v < 2 ^ 63"
    using sint_lt [of x] by (simp add: v_def)
  then have "(of_int v :: rat) < of_int (2 ^ 63)"
    by (rule iffD2 [OF of_int_less_iff])
  then have "(of_int v :: rat) \<le> 2 ^ 63" by simp
  also have "\<dots> \<le> (2 ^ 1000 :: rat)" by simp
  finally have le: "(of_int v :: rat) \<le> 2 ^ 1000" .
  have "0 < v" using assms by (simp add: v_def)
  then have pos: "(0::rat) < of_int v" by (simp only: of_int_0_less_iff)
  from to_double_finite [OF pos le, of False]
  show ?thesis
    unfolding int64_to_double_pos [OF assms] v_def [symmetric] by blast
qed

lemma int64_to_double_exact:
  assumes "0 < sint x" and "sint x < 2 ^ 53"
  shows "int64_to_double x = Finite False (of_int (sint x))"
  unfolding int64_to_double_pos [OF assms(1)]
  by (rule to_double_exact_int [OF assms])

lemma desired_pos_zero:
  assumes "0 < sint track_length"
  shows "desired_pos (Finite s 0) track_length = Some 0"
proof -
  obtain r where "int64_to_double track_length = Finite False r"
    using int64_to_double_finite [OF assms] by blast
  then show ?thesis
    by (simp add: desired_pos_def to_double_zero)
qed

section \<open>A percentage out of range\<close>







section \<open>An argument that is not a number\<close>

text \<open>
  C10. When the argument holds no number (\<^verbatim>\<open>strtoll\<close>, respectively
  \<^verbatim>\<open>strtod\<close>, performs no conversion), \<^verbatim>\<open>atoll\<close> and \<^verbatim>\<open>atof\<close> give
  zero and nothing is rejected. On a player whose proxy can be built, that can seek and
  has an \<^verbatim>\<open>int64\<close> position, \<^verbatim>\<open>set-position\<close> seeks by \<open>0 - current_pos\<close>;
  \<^verbatim>\<open>set-position-percent\<close> passes the range test with 0 and, given a positive track
  length, seeks by \<open>0 - current_pos\<close> as well. Both exit with code 0 when the
  \<^verbatim>\<open>Seek\<close> call succeeds.
\<close>

theorem unparsable_number_is_zero:
  assumes "proxy_new b pid = Some p"
    and "CanSeek p = Some (VBoolean True)"
    and "Position p = Some (VInt64 current_pos)"
  shows "(strtoll pos_str = None \<longrightarrow>
            atoll pos_str = 0 \<and>
            handle_set_position b (Some pid) pos_str =
              (if Seek_error b pid (0 - current_pos) then 1 else 0,
               [Call_proxy_new pid, Call_Seek pid (0 - current_pos)]) \<and>
            (\<not> Seek_error b pid (0 - current_pos) \<longrightarrow>
               main (Some b) [prog, ''set-position'', pid, pos_str] =
                 (Exit 0, [], [Call_proxy_new pid, Call_Seek pid (0 - current_pos)]))) \<and>
         (strtod percent_str = None \<and> Metadata p = Some metadata \<and>
          lookup_int64 metadata ''mpris:length'' = Some track_length \<and> 0 < sint track_length \<longrightarrow>
            atof percent_str = Finite False 0 \<and>
            \<not> double_less (atof percent_str) (Finite False 0) \<and>
            \<not> double_less (Finite False 100) (atof percent_str) \<and>
            handle_set_position_percent b (Some pid) percent_str =
              Some (if Seek_error b pid (0 - current_pos) then 1 else 0,
                    [Call_proxy_new pid, Call_Seek pid (0 - current_pos)]) \<and>
            (\<not> Seek_error b pid (0 - current_pos) \<longrightarrow>
               main (Some b) [prog, ''set-position-percent'', pid, percent_str] =
                 (Exit 0, [], [Call_proxy_new pid, Call_Seek pid (0 - current_pos)])))"
proof (intro conjI impI)
  assume none: "strtoll pos_str = None"
  then show zero: "atoll pos_str = 0"
    by (simp add: atoll_def)
  show h: "handle_set_position b (Some pid) pos_str =
      (if Seek_error b pid (0 - current_pos) then 1 else 0,
       [Call_proxy_new pid, Call_Seek pid (0 - current_pos)])"
    using handle_set_position_seeks [OF assms, of pos_str] by (simp only: zero)
  assume "\<not> Seek_error b pid (0 - current_pos)"
  then show "main (Some b) [prog, ''set-position'', pid, pos_str] =
      (Exit 0, [], [Call_proxy_new pid, Call_Seek pid (0 - current_pos)])"
    by (simp add: main_def seek_outcome_def h)
next
  assume a: "strtod percent_str = None \<and> Metadata p = Some metadata \<and>
      lookup_int64 metadata ''mpris:length'' = Some track_length \<and> 0 < sint track_length"
  then show zero: "atof percent_str = Finite False 0"
    by (simp add: atof_def)
  show "\<not> double_less (atof percent_str) (Finite False 0)"
    and "\<not> double_less (Finite False 100) (atof percent_str)"
    by (simp_all add: zero)
  have target: "desired_pos (Finite False 0) track_length = Some 0"
    using a by (intro desired_pos_zero) simp
  show h: "handle_set_position_percent b (Some pid) percent_str =
      Some (if Seek_error b pid (0 - current_pos) then 1 else 0,
            [Call_proxy_new pid, Call_Seek pid (0 - current_pos)])"
    using assms a by (simp add: handle_set_position_percent_def zero target)
  assume "\<not> Seek_error b pid (0 - current_pos)"
  then show "main (Some b) [prog, ''set-position-percent'', pid, percent_str] =
      (Exit 0, [], [Call_proxy_new pid, Call_Seek pid (0 - current_pos)])"
    by (simp add: main_def seek_outcome_def h)
qed

lemma strtoll_abc: "strtoll ''abc'' = None"
  by code_simp

lemma strtod_abc: "strtod ''abc'' = None"
  by code_simp

theorem unparsable_number_is_zero_witness:
  "strtoll ''abc'' = None \<and> strtod ''abc'' = None \<and>
   main (Some (seek_bus 5000000 200000000))
       [''ndfr-media-helper'', ''set-position'', ''org.mpris.MediaPlayer2.vlc'', ''abc''] =
     (Exit 0, [],
      [Call_proxy_new ''org.mpris.MediaPlayer2.vlc'',
       Call_Seek ''org.mpris.MediaPlayer2.vlc'' (0 - 5000000)]) \<and>
   main (Some (seek_bus 5000000 200000000))
       [''ndfr-media-helper'', ''set-position-percent'', ''org.mpris.MediaPlayer2.vlc'', ''abc''] =
     (Exit 0, [],
      [Call_proxy_new ''org.mpris.MediaPlayer2.vlc'',
       Call_Seek ''org.mpris.MediaPlayer2.vlc'' (0 - 5000000)])"
proof -
  have p: "proxy_new (seek_bus 5000000 200000000) ''org.mpris.MediaPlayer2.vlc'' =
      Some (seek_proxy 5000000 200000000)"
    by (simp add: seek_bus_def bus_of_def)
  have c: "CanSeek (seek_proxy 5000000 200000000) = Some (VBoolean True)"
    and q: "Position (seek_proxy 5000000 200000000) = Some (VInt64 5000000)"
    and m: "Metadata (seek_proxy 5000000 200000000) =
      Some [(''xesam:title'', VString ''Song''), (''mpris:length'', VInt64 200000000)]"
    by (simp_all add: seek_proxy_def)
  have l: "lookup_int64 [(''xesam:title'', VString ''Song''), (''mpris:length'', VInt64 200000000)]
      ''mpris:length'' = Some 200000000"
    by (simp add: lookup_int64_def)
  have pos: "0 < sint (200000000 :: 64 word)"
    by simp
  have ok: "\<not> Seek_error (seek_bus 5000000 200000000) name offset" for name offset
    by (simp add: seek_bus_def bus_of_def)
  from unparsable_number_is_zero
    [OF p c q, where pos_str = "''abc''" and percent_str = "''abc''"
       and prog = "''ndfr-media-helper''" and track_length = 200000000
       and metadata = "[(''xesam:title'', VString ''Song''), (''mpris:length'', VInt64 200000000)]"]
    strtoll_abc strtod_abc m l pos ok
  show ?thesis by simp
qed

section \<open>Seeking to a percentage\<close>

lemma sint_word_of_int_64:
  assumes "- (2 ^ 63) \<le> v" and "v < 2 ^ 63"
  shows "sint (word_of_int v :: 64 word) = v"
proof -
  have "sint (word_of_int v :: 64 word) = signed_take_bit 63 v"
    by (simp add: signed_of_int)
  also have "\<dots> = v"
    using assms by (rule signed_take_bit_int_eq_self)
  finally show ?thesis .
qed

lemma double_to_int64_floor:
  assumes "0 \<le> m" and "m < 2 ^ 63"
  shows "double_to_int64 (Finite False m) = Some (word_of_int \<lfloor>m\<rfloor>) \<and>
         sint (word_of_int \<lfloor>m\<rfloor> :: 64 word) = \<lfloor>m\<rfloor>"
proof -
  have lo: "0 \<le> \<lfloor>m\<rfloor>" using assms(1) by simp
  have "\<lfloor>m\<rfloor> < 2 ^ 63"
  proof -
    have "m < of_int (2 ^ 63)" using assms(2) by simp
    then show ?thesis by (simp only: floor_less_iff)
  qed
  with lo show ?thesis
    by (simp add: sint_word_of_int_64)
qed

lemma floor_close:
  fixes m z :: rat
  assumes "\<bar>m - z\<bar> < 1"
  shows "\<bar>\<lfloor>m\<rfloor> - \<lfloor>z\<rfloor>\<bar> \<le> 1"
proof -
  have fm: "of_int \<lfloor>m\<rfloor> \<le> m" "m < of_int \<lfloor>m\<rfloor> + 1"
    and fz: "of_int \<lfloor>z\<rfloor> \<le> z" "z < of_int \<lfloor>z\<rfloor> + 1"
    by linarith+
  from assms have "m < z + 1" "z < m + 1" by linarith+
  with fm fz have "(of_int \<lfloor>m\<rfloor> :: rat) < of_int \<lfloor>z\<rfloor> + 2"
    and "(of_int \<lfloor>z\<rfloor> :: rat) < of_int \<lfloor>m\<rfloor> + 2"
    by linarith+
  then have "(of_int \<lfloor>m\<rfloor> :: rat) < of_int (\<lfloor>z\<rfloor> + 2)"
    and "(of_int \<lfloor>z\<rfloor> :: rat) < of_int (\<lfloor>m\<rfloor> + 2)"
    by simp_all
  then have "\<lfloor>m\<rfloor> < \<lfloor>z\<rfloor> + 2" "\<lfloor>z\<rfloor> < \<lfloor>m\<rfloor> + 2"
    by (simp_all only: of_int_less_iff)
  then show ?thesis by linarith
qed

lemma tiny_quantum: "(2::rat) powi (- 1074) \<le> 1 / 2 ^ 52"
  by (simp add: power_int_minus field_simps)

lemma desired_pos_close:
  assumes "0 \<le> pct" and "pct \<le> 100"
    and "0 < sint track_length" and "sint track_length < 2 ^ 51"
  shows "\<exists>target. desired_pos (Finite False pct) track_length = Some target \<and>
           \<bar>sint target - spec_target pct (sint track_length)\<bar> \<le> 1"
proof (cases "pct = 0")
  case True
  then show ?thesis
    using desired_pos_zero [OF assms(3), of False] by (simp add: spec_target_def)
next
  case False
  define l where "l = sint track_length"
  define x where "x = pct / 100"
  define z where "z = x * of_int l"
  have l_pos: "0 < l" and l_less: "l < 2 ^ 51"
    using assms(3,4) by (simp_all add: l_def)
  have lr_pos: "(0::rat) < of_int l"
    using l_pos by (simp only: of_int_0_less_iff)
  have "(of_int l :: rat) < of_int (2 ^ 51)"
    using l_less by (rule iffD2 [OF of_int_less_iff])
  then have lr_less: "(of_int l :: rat) < 2 ^ 51" by simp
  have x_pos: "0 < x" and x_le: "x \<le> 1"
    using assms(1,2) False by (simp_all add: x_def)
  have z_nonneg: "0 \<le> z"
    using x_pos lr_pos by (simp add: z_def)
  have length: "int64_to_double track_length = Finite False (of_int l)"
    unfolding l_def using assms(3,4) by (intro int64_to_double_exact) simp_all
  have quotient: "double_div (Finite False pct) (Finite False 100) = to_double False x"
    by (simp add: x_def)
  have "x \<le> 2 ^ 1000"
  proof -
    have "(1::rat) \<le> 2 ^ 1000" by simp
    with x_le show ?thesis by linarith
  qed
  from to_double_finite [OF x_pos this, of False]
  obtain q where q: "to_double False x = Finite False q" "0 \<le> q"
    and q_err: "\<bar>q - x\<bar> \<le> max (x / 2 ^ 52) (2 powi (- 1074)) / 2"
    by blast
  have "max (x / 2 ^ 52) (2 powi (- 1074)) \<le> 1 / 2 ^ 52"
  proof -
    have "x / 2 ^ 52 \<le> 1 / 2 ^ 52"
      using x_le by (simp add: divide_right_mono)
    with tiny_quantum show ?thesis by simp
  qed
  with q_err have q_close: "\<bar>q - x\<bar> \<le> 1 / 2 ^ 53"
    by simp
  define y where "y = q * of_int l"
  have y_nonneg: "0 \<le> y"
    using q(2) lr_pos by (simp add: y_def)
  have product: "desired_pos (Finite False pct) track_length =
      double_to_int64 (to_double False y)"
    by (simp add: desired_pos_def q(1) [unfolded x_def] length y_def)
  have yz: "\<bar>y - z\<bar> \<le> 1 / 4"
  proof -
    have "y - z = (q - x) * of_int l"
      by (simp add: y_def z_def algebra_simps)
    then have "\<bar>y - z\<bar> = \<bar>q - x\<bar> * of_int l"
      using lr_pos by (simp add: abs_mult)
    also have "\<dots> \<le> (1 / 2 ^ 53) * 2 ^ 51"
      using q_close lr_less lr_pos by (intro mult_mono) simp_all
    also have "\<dots> = (1 / 4 :: rat)" by simp
    finally show ?thesis .
  qed
  have z_le: "z \<le> 2 ^ 51"
  proof -
    have "z \<le> 1 * of_int l"
      unfolding z_def using x_le lr_pos by (intro mult_right_mono) simp_all
    with lr_less show ?thesis by simp
  qed
  show ?thesis
  proof (cases "y = 0")
    case True
    have "z < 1" using yz True by linarith
    with z_nonneg have "\<lfloor>z\<rfloor> = 0" by (simp add: floor_eq_iff)
    then have "spec_target pct (sint track_length) = 0"
      by (simp add: spec_target_def z_def x_def l_def)
    moreover have "desired_pos (Finite False pct) track_length = Some 0"
      by (simp add: product True to_double_zero)
    ultimately show ?thesis by simp
  next
    case False
    with y_nonneg have y_pos: "0 < y" by simp
    have y_le: "y \<le> 2 ^ 52"
    proof -
      have "y \<le> z + 1 / 4" using yz by linarith
      also have "\<dots> \<le> 2 ^ 51 + 1 / 4" using z_le by simp
      also have "\<dots> \<le> (2 ^ 52 :: rat)" by simp
      finally show ?thesis .
    qed
    have "y \<le> 2 ^ 1000"
    proof -
      have "(2 ^ 52 :: rat) \<le> 2 ^ 1000" by simp
      with y_le show ?thesis by linarith
    qed
    from to_double_finite [OF y_pos this, of False]
    obtain m where m: "to_double False y = Finite False m" "0 \<le> m"
      and m_err: "\<bar>m - y\<bar> \<le> max (y / 2 ^ 52) (2 powi (- 1074)) / 2"
      by blast
    have "max (y / 2 ^ 52) (2 powi (- 1074)) \<le> 1"
    proof -
      have "y / 2 ^ 52 \<le> 1"
        using y_le by (simp add: field_simps)
      moreover have "(2::rat) powi (- 1074) \<le> 1"
        using tiny_quantum by (simp add: power_int_minus field_simps)
      ultimately show ?thesis by simp
    qed
    with m_err have my: "\<bar>m - y\<bar> \<le> 1 / 2" by simp
    from my yz have mz: "\<bar>m - z\<bar> < 1" by linarith
    have "m < 2 ^ 63"
    proof -
      have "m < z + 1" using mz by linarith
      also have "\<dots> \<le> 2 ^ 51 + 1" using z_le by simp
      also have "\<dots> < (2 ^ 63 :: rat)" by simp
      finally show ?thesis .
    qed
    from double_to_int64_floor [OF m(2) this]
    have target: "desired_pos (Finite False pct) track_length = Some (word_of_int \<lfloor>m\<rfloor>)"
      and readback: "sint (word_of_int \<lfloor>m\<rfloor> :: 64 word) = \<lfloor>m\<rfloor>"
      by (simp_all add: product m(1))
    have "spec_target pct (sint track_length) = \<lfloor>z\<rfloor>"
      by (simp add: spec_target_def z_def x_def l_def)
    with floor_close [OF mz] target readback show ?thesis
      by simp
  qed
qed

text \<open>
  C4, as the program has it. Let the percentage that \<^verbatim>\<open>atof\<close> reads be a finite
  double of magnitude \<open>pct\<close> in \<open>[0, 100]\<close>, negative only as the zero
  \<^verbatim>\<open>-0.0\<close>, on a player whose proxy can be built, that can seek, whose metadata hold
  a track length above 0 as a signed 64-bit integer and whose \<^verbatim>\<open>Position\<close> is a
  signed 64-bit integer. The target is computed in double precision: the quotient
  \<open>pct / 100.0\<close> is rounded to a double, its product with the length is rounded to a
  double, and the fraction of that is dropped. Whenever this conversion to a 64-bit integer
  is defined, \<^verbatim>\<open>handle_set_position_percent\<close> calls \<^verbatim>\<open>Seek\<close> once, with the
  offset \<open>target - current_pos\<close>, and returns 0 unless that call fails. For a length
  below \<open>2 ^ 51\<close> microseconds the conversion is defined, so \<^verbatim>\<open>Seek\<close> is called,
  and the target is within one microsecond of the exact \<open>(pct / 100) * length\<close>
  rounded toward zero.
\<close>

theorem percent_seek_offset:
  assumes "proxy_new b pid = Some p"
    and "CanSeek p = Some (VBoolean True)"
    and "Metadata p = Some metadata"
    and "lookup_int64 metadata ''mpris:length'' = Some track_length"
    and "0 < sint track_length"
    and "Position p = Some (VInt64 current_pos)"
    and "atof percent_str = Finite s pct" and "0 \<le> pct" and "pct \<le> 100"
    and "s \<longrightarrow> pct = 0"
  shows "handle_set_position_percent b (Some pid) percent_str =
           (case desired_pos (Finite s pct) track_length of
              None \<Rightarrow> None
            | Some target \<Rightarrow>
                Some (if Seek_error b pid (target - current_pos) then 1 else 0,
                      [Call_proxy_new pid, Call_Seek pid (target - current_pos)])) \<and>
         (sint track_length < 2 ^ 51 \<longrightarrow>
            (\<exists>target.
               desired_pos (Finite s pct) track_length = Some target \<and>
               \<bar>sint target - spec_target pct (sint track_length)\<bar> \<le> 1 \<and>
               handle_set_position_percent b (Some pid) percent_str =
                 Some (if Seek_error b pid (target - current_pos) then 1 else 0,
                       [Call_proxy_new pid, Call_Seek pid (target - current_pos)])))"
proof -
  have in_range: "\<not> double_less (Finite s pct) (Finite False 0)"
    "\<not> double_less (Finite False 100) (Finite s pct)"
    using assms(8,9,10) by auto
  have "\<not> sint track_length \<le> 0" using assms(5) by simp
  with assms(1-4,6,7) in_range
  have run: "handle_set_position_percent b (Some pid) percent_str =
      (case desired_pos (Finite s pct) track_length of
         None \<Rightarrow> None
       | Some target \<Rightarrow>
           Some (if Seek_error b pid (target - current_pos) then 1 else 0,
                 [Call_proxy_new pid, Call_Seek pid (target - current_pos)]))"
    by (simp add: handle_set_position_percent_def Let_def split: option.splits)
  have "\<exists>target.
      desired_pos (Finite s pct) track_length = Some target \<and>
      \<bar>sint target - spec_target pct (sint track_length)\<bar> \<le> 1 \<and>
      handle_set_position_percent b (Some pid) percent_str =
        Some (if Seek_error b pid (target - current_pos) then 1 else 0,
              [Call_proxy_new pid, Call_Seek pid (target - current_pos)])"
    if short: "sint track_length < 2 ^ 51"
  proof -
    have "\<exists>target. desired_pos (Finite s pct) track_length = Some target \<and>
        \<bar>sint target - spec_target pct (sint track_length)\<bar> \<le> 1"
    proof (cases "pct = 0")
      case True
      then show ?thesis
        using desired_pos_zero [OF assms(5), of s] by (simp add: spec_target_def)
    next
      case False
      with assms(10) have "\<not> s" by simp
      with desired_pos_close [OF assms(8,9,5) short] show ?thesis by simp
    qed
    then obtain target where t: "desired_pos (Finite s pct) track_length = Some target"
      "\<bar>sint target - spec_target pct (sint track_length)\<bar> \<le> 1"
      by blast
    with run show ?thesis by simp
  qed
  with run show ?thesis by blast
qed

lemma atof_50: "atof ''50.0'' = Finite False 50"
  by code_simp

lemma desired_pos_50: "desired_pos (Finite False 50) 200000000 = Some 100000000"
  by code_simp

lemma spec_target_50: "spec_target 50 200000000 = 100000000"
  by code_simp

text \<open>
  Length 200,000,000, percentage 50.0 and position 10,000,000 give the target 100,000,000
  and the offset 90,000,000.
\<close>

theorem percent_seek_offset_witness:
  "atof ''50.0'' = Finite False 50 \<and>
   desired_pos (Finite False 50) 200000000 = Some 100000000 \<and>
   spec_target 50 200000000 = 100000000 \<and>
   handle_set_position_percent (seek_bus 10000000 200000000) (Some ''org.mpris.MediaPlayer2.vlc'')
       ''50.0'' =
     Some (0, [Call_proxy_new ''org.mpris.MediaPlayer2.vlc'',
               Call_Seek ''org.mpris.MediaPlayer2.vlc'' 90000000])"
proof -
  have p: "proxy_new (seek_bus 10000000 200000000) ''org.mpris.MediaPlayer2.vlc'' =
      Some (seek_proxy 10000000 200000000)"
    by (simp add: seek_bus_def bus_of_def)
  have c: "CanSeek (seek_proxy 10000000 200000000) = Some (VBoolean True)"
    and q: "Position (seek_proxy 10000000 200000000) = Some (VInt64 10000000)"
    and m: "Metadata (seek_proxy 10000000 200000000) =
      Some [(''xesam:title'', VString ''Song''), (''mpris:length'', VInt64 200000000)]"
    by (simp_all add: seek_proxy_def)
  have l: "lookup_int64 [(''xesam:title'', VString ''Song''), (''mpris:length'', VInt64 200000000)]
      ''mpris:length'' = Some 200000000"
    by (simp add: lookup_int64_def)
  have pos: "0 < sint (200000000 :: 64 word)"
    by simp
  have ok: "\<not> Seek_error (seek_bus 10000000 200000000) name offset" for name offset
    by (simp add: seek_bus_def bus_of_def)
  have "handle_set_position_percent (seek_bus 10000000 200000000)
      (Some ''org.mpris.MediaPlayer2.vlc'') ''50.0'' =
      (case desired_pos (Finite False 50) 200000000 of
         None \<Rightarrow> None
       | Some target \<Rightarrow>
           Some (if Seek_error (seek_bus 10000000 200000000) ''org.mpris.MediaPlayer2.vlc''
                      (target - 10000000) then 1 else 0,
                 [Call_proxy_new ''org.mpris.MediaPlayer2.vlc'',
                  Call_Seek ''org.mpris.MediaPlayer2.vlc'' (target - 10000000)]))"
    using percent_seek_offset [OF p c m l pos q atof_50] by simp
  then show ?thesis
    by (simp add: desired_pos_50 atof_50 spec_target_50 ok)
qed

text \<open>
  C4 as stated fails: 29 percent of a track of 100 microseconds is 29 microseconds, and the
  program seeks to 28, since \<open>29 / 100.0\<close> rounds to a double below 0.29 and the
  product with 100 to one below 29.
\<close>

theorem percent_seek_counterexample:
  "handle_set_position_percent (seek_bus 0 100) (Some ''org.mpris.MediaPlayer2.vlc'') ''29'' =
     Some (0, [Call_proxy_new ''org.mpris.MediaPlayer2.vlc'',
               Call_Seek ''org.mpris.MediaPlayer2.vlc'' 28]) \<and>
   spec_target 29 100 = 29"
  by code_simp

end
